theory Spec2Isabelle
  imports Main "HOL-Library.State_Monad"
begin

section \<open>Lamport clock (lamport\_clock.py)\<close>

text \<open>
  The class \<open>LamportClock\<close> holds one Python integer \<open>time\<close>. Python integers are
  unbounded, so the field is an \<open>int\<close>. Every method mutates the object and returns a
  value: the model returns the value together with the new clock.
\<close>

record LamportClock =
  time :: int

definition LamportClock_init :: "int \<Rightarrow> LamportClock" where
  "LamportClock_init initial_time = \<lparr>time = initial_time\<rparr>"

definition increment :: "LamportClock \<Rightarrow> int \<times> LamportClock" where
  "increment self = (let self' = self\<lparr>time := time self + 1\<rparr> in (time self', self'))"

definition update :: "LamportClock \<Rightarrow> int \<Rightarrow> int \<times> LamportClock" where
  "update self received_time =
     (let self' = self\<lparr>time := max (time self) received_time + 1\<rparr> in (time self', self'))"

definition get_time :: "LamportClock \<Rightarrow> int \<times> LamportClock" where
  "get_time self = (time self, self)"

text \<open>A mutating call on the clock, and a run of such calls from a given clock (each
  call's new clock is the next call's clock). The run lists the clock value after each
  call.\<close>

datatype clock_call = Increment | Update int

fun clock_step :: "LamportClock \<Rightarrow> clock_call \<Rightarrow> LamportClock" where
  "clock_step c Increment = snd (increment c)"
| "clock_step c (Update x) = snd (update c x)"

fun clock_run :: "LamportClock \<Rightarrow> clock_call list \<Rightarrow> int list" where
  "clock_run c [] = []"
| "clock_run c (k # ks) = time (clock_step c k) # clock_run (clock_step c k) ks"

section \<open>Request ordering (client.py, the comparison inside RequestAccess)\<close>

text \<open>
  \<open>should_grant\<close> compares two Python tuples of integers with \<open><\<close>. Python compares
  tuples by looking for the first position where the two differ and comparing the
  elements there; tuples that agree everywhere (and have the same length) are not below
  each other.
\<close>

definition tuple_lt :: "int \<times> int \<Rightarrow> int \<times> int \<Rightarrow> bool" where
  "tuple_lt a b =
     (if fst a \<noteq> fst b then fst a < fst b
      else if snd a \<noteq> snd b then snd a < snd b
      else False)"

text \<open>The relation in the words of the specification.\<close>

definition spec_lt :: "int \<times> int \<Rightarrow> int \<times> int \<Rightarrow> bool" where
  "spec_lt a b = (case (a, b) of ((t1, p1), (t2, p2)) \<Rightarrow> t1 < t2 \<or> (t1 = t2 \<and> p1 < p2))"

section \<open>The peer (client.py)\<close>

text \<open>
  The fields of \<open>IntelligentClient\<close>. The lock and the gRPC server object carry no data
  of the protocol and are left out; the lock's effect is that the block it guards runs
  as one step.
\<close>

record IntelligentClient =
  client_id :: int
  client_port :: int
  print_server_address :: string
  other_clients :: "(int \<times> string) list"
  clock :: LamportClock
  requesting :: bool
  request_timestamp :: int
  request_number :: int
  replies_received :: int
  deferred_requests :: "(int \<times> int) list"
  total_prints :: int
  running :: bool

definition IntelligentClient_init ::
  "int \<Rightarrow> int \<Rightarrow> string \<Rightarrow> (int \<times> string) list \<Rightarrow> IntelligentClient" where
  "IntelligentClient_init cid port print_server others =
     \<lparr>client_id = cid, client_port = port, print_server_address = print_server,
      other_clients = others, clock = LamportClock_init 0, requesting = False,
      request_timestamp = 0, request_number = 0, replies_received = 0,
      deferred_requests = [], total_prints = 0, running = True\<rparr>"

text \<open>The messages of the mutual exclusion service, with the fields the code reads and
  writes.\<close>

record AccessRequest =
  req_client_id :: int
  req_lamport_timestamp :: int
  req_request_number :: int

record AccessResponse =
  access_granted :: bool
  resp_lamport_timestamp :: int

record ReleaseMessage =
  rel_client_id :: int
  rel_lamport_timestamp :: int
  rel_request_number :: int

record ReleaseResponse =
  acknowledged :: bool

record PrintResponse =
  success :: bool
  confirmation_message :: string
  print_lamport_timestamp :: int

text \<open>An outbound call either yields the peer's response or raises \<open>grpc.RpcError\<close>
  (timeout, connection refused).\<close>

datatype 'a rpc_result = Reply 'a | RpcError

subsection \<open>Inbound handlers\<close>

text \<open>
  \<open>RequestAccess\<close> first updates the clock (before taking the lock), then runs the
  block under the lock. The two parts are separate definitions; the handler is their
  composition. \<open>log\<close> only reads the clock and prints, so it does not appear.
\<close>

definition update_clock :: "IntelligentClient \<Rightarrow> int \<Rightarrow> IntelligentClient" where
  "update_clock self ts = self\<lparr>clock := snd (update (clock self) ts)\<rparr>"

definition should_grant :: "IntelligentClient \<Rightarrow> AccessRequest \<Rightarrow> bool" where
  "should_grant self request =
     (let requesting_client = req_client_id request;
          requesting_timestamp = req_lamport_timestamp request
      in \<not> requesting self \<or>
         tuple_lt (requesting_timestamp, requesting_client)
                  (request_timestamp self, client_id self))"

definition RequestAccess_locked ::
  "IntelligentClient \<Rightarrow> AccessRequest \<Rightarrow> AccessResponse \<times> IntelligentClient" where
  "RequestAccess_locked self request =
     (let requesting_client = req_client_id request in
      if should_grant self request then
        (let (response_timestamp, clk) = increment (clock self)
         in (\<lparr>access_granted = True, resp_lamport_timestamp = response_timestamp\<rparr>,
             self\<lparr>clock := clk\<rparr>))
      else
        (let self1 = self\<lparr>deferred_requests :=
                       deferred_requests self @ [(requesting_client, req_lamport_timestamp request)]\<rparr>;
             (response_timestamp, clk) = increment (clock self1)
         in (\<lparr>access_granted = False, resp_lamport_timestamp = response_timestamp\<rparr>,
             self1\<lparr>clock := clk\<rparr>)))"

definition RequestAccess ::
  "IntelligentClient \<Rightarrow> AccessRequest \<Rightarrow> AccessResponse \<times> IntelligentClient" where
  "RequestAccess self request =
     RequestAccess_locked (update_clock self (req_lamport_timestamp request)) request"

definition ReleaseAccess_locked :: "IntelligentClient \<Rightarrow> ReleaseResponse \<times> IntelligentClient" where
  "ReleaseAccess_locked self =
     (let (response_timestamp, clk) = increment (clock self)
      in (\<lparr>acknowledged = True\<rparr>, self\<lparr>clock := clk\<rparr>))"

definition ReleaseAccess ::
  "IntelligentClient \<Rightarrow> ReleaseMessage \<Rightarrow> ReleaseResponse \<times> IntelligentClient" where
  "ReleaseAccess self request =
     ReleaseAccess_locked (update_clock self (rel_lamport_timestamp request))"

subsection \<open>The requesting path\<close>

text \<open>
  \<open>send_access_request\<close> builds the request, calls the peer and counts the reply. What
  the call yields is decided by the peer and the network, so it is an argument. The
  function returns the request it sent and the new state.
\<close>

definition send_access_request ::
  "IntelligentClient \<Rightarrow> int \<Rightarrow> string \<Rightarrow> int \<Rightarrow> int \<Rightarrow> AccessResponse rpc_result
     \<Rightarrow> AccessRequest \<times> IntelligentClient" where
  "send_access_request self target_client_id target_address request_num timestamp result =
     (let request = \<lparr>req_client_id = client_id self, req_lamport_timestamp = timestamp,
                      req_request_number = request_num\<rparr>
      in case result of
           Reply response \<Rightarrow>
             (let self1 = update_clock self (resp_lamport_timestamp response)
              in if access_granted response
                 then (request, self1\<lparr>replies_received := replies_received self1 + 1\<rparr>)
                 else (request, self1\<lparr>replies_received := replies_received self1 + 1\<rparr>))
         | RpcError \<Rightarrow> (request, self\<lparr>replies_received := replies_received self + 1\<rparr>))"

text \<open>The block of \<open>request_critical_section\<close> that runs under the lock.\<close>

definition request_locked :: "IntelligentClient \<Rightarrow> IntelligentClient" where
  "request_locked self =
     (let self1 = self\<lparr>requesting := True\<rparr>;
          self2 = self1\<lparr>request_number := request_number self1 + 1\<rparr>;
          (ts, clk) = increment (clock self2);
          self3 = self2\<lparr>clock := clk, request_timestamp := ts\<rparr>
      in self3\<lparr>replies_received := 0\<rparr>)"

text \<open>The loop over \<open>other_clients\<close>: \<open>net k\<close> is what the \<open>k\<close>-th call of the loop
  yields. The result lists the (address, request) pairs sent, in order.\<close>

fun send_requests ::
  "IntelligentClient \<Rightarrow> (int \<times> string) list \<Rightarrow> int \<Rightarrow> int
     \<Rightarrow> (nat \<Rightarrow> AccessResponse rpc_result) \<Rightarrow> nat
     \<Rightarrow> (string \<times> AccessRequest) list \<times> IntelligentClient" where
  "send_requests self [] current_request current_timestamp net k = ([], self)"
| "send_requests self ((other_client_id, other_client_address) # rest)
       current_request current_timestamp net k =
     (let (request, self1) = send_access_request self other_client_id other_client_address
                               current_request current_timestamp (net k);
          (sent, self2) = send_requests self1 rest current_request current_timestamp net (Suc k)
      in ((other_client_address, request) # sent, self2))"

text \<open>
  The polling loop \<open>while True: if replies_received >= required_replies: break; sleep\<close>.
  Nothing in the thread that runs it changes the state between two polls, so the loop
  either leaves at the first poll or never: not returning is the value \<open>None\<close>.
  The result counts the calls of \<open>time.sleep\<close>.
\<close>

partial_function (option) wait_for_replies ::
  "IntelligentClient \<Rightarrow> int \<Rightarrow> nat \<Rightarrow> nat option" where
  "wait_for_replies self required_replies sleeps =
     (if replies_received self \<ge> required_replies then Some sleeps
      else wait_for_replies self required_replies (Suc sleeps))"

text \<open>\<open>request_critical_section\<close> returns the requests sent, the number of sleeps of
  the polling loop, and the new state.\<close>

definition request_critical_section ::
  "IntelligentClient \<Rightarrow> (nat \<Rightarrow> AccessResponse rpc_result)
     \<Rightarrow> ((string \<times> AccessRequest) list \<times> nat \<times> IntelligentClient) option" where
  "request_critical_section self net =
     (let self1 = request_locked self;
          current_request = request_number self1;
          current_timestamp = request_timestamp self1;
          (sent, self2) = send_requests self1 (other_clients self1)
                            current_request current_timestamp net 0;
          required_replies = int (length (other_clients self2))
      in case wait_for_replies self2 required_replies 0 of
           None \<Rightarrow> None
         | Some sleeps \<Rightarrow> Some (sent, sleeps, self2))"

subsection \<open>Release\<close>

text \<open>The block of \<open>release_critical_section\<close> under the lock returns the copy of the
  deferred queue and the release timestamp.\<close>

definition release_locked ::
  "IntelligentClient \<Rightarrow> ((int \<times> int) list \<times> int) \<times> IntelligentClient" where
  "release_locked self =
     (let self1 = self\<lparr>requesting := False\<rparr>;
          deferred = deferred_requests self1;
          self2 = self1\<lparr>deferred_requests := []\<rparr>;
          (release_timestamp, clk) = increment (clock self2)
      in ((deferred, release_timestamp), self2\<lparr>clock := clk\<rparr>))"

text \<open>\<open>send_release_notification\<close> sends the message and ignores the response; an
  \<open>RpcError\<close> is logged. Either way no field is written.\<close>

definition send_release_notification ::
  "IntelligentClient \<Rightarrow> int \<Rightarrow> string \<Rightarrow> int \<Rightarrow> ReleaseResponse rpc_result
     \<Rightarrow> ReleaseMessage \<times> IntelligentClient" where
  "send_release_notification self target_client_id target_address timestamp result =
     (let release_msg = \<lparr>rel_client_id = client_id self, rel_lamport_timestamp = timestamp,
                          rel_request_number = request_number self\<rparr>
      in case result of Reply _ \<Rightarrow> (release_msg, self) | RpcError \<Rightarrow> (release_msg, self))"

fun send_releases ::
  "IntelligentClient \<Rightarrow> (int \<times> string) list \<Rightarrow> int
     \<Rightarrow> (nat \<Rightarrow> ReleaseResponse rpc_result) \<Rightarrow> nat
     \<Rightarrow> (string \<times> ReleaseMessage) list \<times> IntelligentClient" where
  "send_releases self [] release_timestamp net k = ([], self)"
| "send_releases self ((other_client_id, other_client_address) # rest) release_timestamp net k =
     (let (msg, self1) = send_release_notification self other_client_id other_client_address
                           release_timestamp (net k);
          (sent, self2) = send_releases self1 rest release_timestamp net (Suc k)
      in ((other_client_address, msg) # sent, self2))"

text \<open>\<open>release_critical_section\<close> returns the release messages sent, the client ids
  for which "Granting deferred request" is logged (nothing is sent to them), and the
  new state.\<close>

definition release_critical_section ::
  "IntelligentClient \<Rightarrow> (nat \<Rightarrow> ReleaseResponse rpc_result)
     \<Rightarrow> ((string \<times> ReleaseMessage) list \<times> int list) \<times> IntelligentClient" where
  "release_critical_section self net =
     (let ((deferred, release_timestamp), self1) = release_locked self;
          (sent, self2) = send_releases self1 (other_clients self1) release_timestamp net 0
      in ((sent, map fst deferred), self2))"

subsection \<open>Printing\<close>

definition send_to_printer ::
  "IntelligentClient \<Rightarrow> PrintResponse rpc_result \<Rightarrow> IntelligentClient" where
  "send_to_printer self result =
     (let (timestamp, clk) = increment (clock self);
          self1 = self\<lparr>clock := clk\<rparr>
      in case result of
           Reply response \<Rightarrow>
             (let self2 = update_clock self1 (print_lamport_timestamp response)
              in if success response
                 then self2\<lparr>total_prints := total_prints self2 + 1\<rparr>
                 else self2)
         | RpcError \<Rightarrow> self1)"


subsection \<open>One peer under interleaving\<close>

text \<open>
  The peer's own thread runs \<open>print_document\<close> again and again
  (\<open>run_automatic_requests\<close>): \<open>request_critical_section\<close>, \<open>send_to_printer\<close>,
  \<open>release_critical_section\<close>. The gRPC worker threads run the inbound handlers at any
  time. The threads interleave at the operations on the shared object: a block under
  the lock is one step, a clock call outside the lock is one step. The phase records
  where the own thread is; the pending list holds the inbound calls that have updated
  the clock and not yet entered their locked block.
\<close>

datatype phase =
    Idle
  | Sending int int "(int \<times> string) list"
  | Counting int int "(int \<times> string) list"
  | Waiting
  | Critical
  | AwaitPrint
  | Releasing

datatype inbound = Req AccessRequest | Rel ReleaseMessage

datatype event =
    OwnRequest
  | OwnSendReply AccessResponse
  | OwnSendError
  | OwnCount
  | OwnSent
  | OwnPoll
  | OwnPrintSend
  | OwnPrintDone "PrintResponse rpc_result"
  | OwnRelease
  | Arrive inbound
  | Handle nat

type_synonym config = "phase \<times> inbound list \<times> IntelligentClient"

fun inbound_timestamp :: "inbound \<Rightarrow> int" where
  "inbound_timestamp (Req r) = req_lamport_timestamp r"
| "inbound_timestamp (Rel m) = rel_lamport_timestamp m"

fun handle_locked :: "IntelligentClient \<Rightarrow> inbound \<Rightarrow> IntelligentClient" where
  "handle_locked c (Req r) = snd (RequestAccess_locked c r)"
| "handle_locked c (Rel m) = snd (ReleaseAccess_locked c)"

fun fire :: "event \<Rightarrow> config \<Rightarrow> config option" where
  "fire OwnRequest (ph, pend, c) =
     (case ph of
        Idle \<Rightarrow>
          (let c1 = request_locked c
           in Some (Sending (request_number c1) (request_timestamp c1) (other_clients c1),
                    pend, c1))
      | _ \<Rightarrow> None)"
| "fire (OwnSendReply response) (ph, pend, c) =
     (case ph of
        Sending rn ts (p # ps) \<Rightarrow>
          Some (Counting rn ts ps, pend, update_clock c (resp_lamport_timestamp response))
      | _ \<Rightarrow> None)"
| "fire OwnSendError (ph, pend, c) =
     (case ph of Sending rn ts (p # ps) \<Rightarrow> Some (Counting rn ts ps, pend, c) | _ \<Rightarrow> None)"
| "fire OwnCount (ph, pend, c) =
     (case ph of
        Counting rn ts ps \<Rightarrow>
          Some (Sending rn ts ps, pend, c\<lparr>replies_received := replies_received c + 1\<rparr>)
      | _ \<Rightarrow> None)"
| "fire OwnSent (ph, pend, c) =
     (case ph of Sending rn ts [] \<Rightarrow> Some (Waiting, pend, c) | _ \<Rightarrow> None)"
| "fire OwnPoll (ph, pend, c) =
     (case ph of
        Waiting \<Rightarrow>
          (if replies_received c \<ge> int (length (other_clients c))
           then Some (Critical, pend, c) else Some (Waiting, pend, c))
      | _ \<Rightarrow> None)"
| "fire OwnPrintSend (ph, pend, c) =
     (case ph of
        Critical \<Rightarrow> Some (AwaitPrint, pend, c\<lparr>clock := snd (increment (clock c))\<rparr>)
      | _ \<Rightarrow> None)"
| "fire (OwnPrintDone result) (ph, pend, c) =
     (case ph of
        AwaitPrint \<Rightarrow>
          (case result of
             Reply response \<Rightarrow>
               (let c1 = update_clock c (print_lamport_timestamp response)
                in Some (Releasing, pend,
                         if success response then c1\<lparr>total_prints := total_prints c1 + 1\<rparr>
                         else c1))
           | RpcError \<Rightarrow> Some (Releasing, pend, c))
      | _ \<Rightarrow> None)"
| "fire OwnRelease (ph, pend, c) =
     (case ph of Releasing \<Rightarrow> Some (Idle, pend, snd (release_locked c)) | _ \<Rightarrow> None)"
| "fire (Arrive m) (ph, pend, c) = Some (ph, pend @ [m], update_clock c (inbound_timestamp m))"
| "fire (Handle k) (ph, pend, c) =
     (if k < length pend
      then Some (ph, take k pend @ drop (Suc k) pend, handle_locked c (pend ! k))
      else None)"

fun run :: "event list \<Rightarrow> config \<Rightarrow> config option" where
  "run [] s = Some s"
| "run (e # es) s = (case fire e s of None \<Rightarrow> None | Some s' \<Rightarrow> run es s')"

definition initial :: "int \<Rightarrow> int \<Rightarrow> string \<Rightarrow> (int \<times> string) list \<Rightarrow> config" where
  "initial cid port print_server others =
     (Idle, [], IntelligentClient_init cid port print_server others)"

text \<open>The property of the deferred queue that every step keeps.\<close>

definition deferred_ok :: "IntelligentClient \<Rightarrow> bool" where
  "deferred_ok c =
     ((deferred_requests c \<noteq> [] \<longrightarrow> requesting c) \<and>
      list_all (\<lambda>(cid, ts). \<not> tuple_lt (ts, cid) (request_timestamp c, client_id c))
               (deferred_requests c))"


text \<open>What the own thread guarantees between two requests: it is in phase \<open>Idle\<close> only
  before its first request or after a release.\<close>

definition phase_ok :: "config \<Rightarrow> bool" where
  "phase_ok s = (case s of (ph, pend, c) \<Rightarrow> deferred_ok c \<and> (ph = Idle \<longrightarrow> \<not> requesting c))"

subsection \<open>Which accesses hold the lock\<close>

text \<open>
  The methods once more, this time statement by statement as computations of one thread
  on the shared object. The thread's state holds the object, whether the thread is
  inside a \<open>with self.lock\<close> block, and the list of the reads and writes of the object's
  fields made so far. A read or write records the field together with the lock state
  at that moment; entering a \<open>with self.lock\<close> block sets the lock state and leaving it
  clears it. The code never takes the lock inside a locked block.
\<close>

datatype field =
    F_client_id | F_client_port | F_other_clients | F_clock | F_requesting
  | F_request_timestamp | F_request_number | F_replies_received | F_deferred_requests
  | F_total_prints | F_running

datatype mode = Read | Write

type_synonym access = "mode \<times> field \<times> bool"

record thread =
  self_obj :: IntelligentClient
  lock_held :: bool
  accesses :: "access list"

definition thread_init :: "IntelligentClient \<Rightarrow> thread" where
  "thread_init c = \<lparr>self_obj = c, lock_held = False, accesses = []\<rparr>"

definition read_field :: "field \<Rightarrow> (IntelligentClient \<Rightarrow> 'a) \<Rightarrow> (thread, 'a) state" where
  "read_field f get =
     State (\<lambda>s. (get (self_obj s), s\<lparr>accesses := accesses s @ [(Read, f, lock_held s)]\<rparr>))"

definition write_field ::
  "field \<Rightarrow> (IntelligentClient \<Rightarrow> IntelligentClient) \<Rightarrow> (thread, unit) state" where
  "write_field f upd =
     State (\<lambda>s. ((), s\<lparr>self_obj := upd (self_obj s),
                        accesses := accesses s @ [(Write, f, lock_held s)]\<rparr>))"

definition with_lock :: "(thread, 'a) state \<Rightarrow> (thread, 'a) state" where
  "with_lock body =
     State (\<lambda>s. case run_state body (s\<lparr>lock_held := True\<rparr>) of
                  (r, s') \<Rightarrow> (r, s'\<lparr>lock_held := False\<rparr>))"

text \<open>The fields, each with its name in the access list.\<close>

definition read_client_id :: "(thread, int) state" where
  "read_client_id = read_field F_client_id client_id"

definition read_client_port :: "(thread, int) state" where
  "read_client_port = read_field F_client_port client_port"

definition read_other_clients :: "(thread, (int \<times> string) list) state" where
  "read_other_clients = read_field F_other_clients other_clients"

definition read_time :: "(thread, int) state" where
  "read_time = read_field F_clock (\<lambda>c. time (clock c))"

definition write_time :: "int \<Rightarrow> (thread, unit) state" where
  "write_time t = write_field F_clock (\<lambda>c. c\<lparr>clock := (clock c)\<lparr>time := t\<rparr>\<rparr>)"

definition read_requesting :: "(thread, bool) state" where
  "read_requesting = read_field F_requesting requesting"

definition write_requesting :: "bool \<Rightarrow> (thread, unit) state" where
  "write_requesting v = write_field F_requesting (\<lambda>c. c\<lparr>requesting := v\<rparr>)"

definition read_request_timestamp :: "(thread, int) state" where
  "read_request_timestamp = read_field F_request_timestamp request_timestamp"

definition write_request_timestamp :: "int \<Rightarrow> (thread, unit) state" where
  "write_request_timestamp v = write_field F_request_timestamp (\<lambda>c. c\<lparr>request_timestamp := v\<rparr>)"

definition read_request_number :: "(thread, int) state" where
  "read_request_number = read_field F_request_number request_number"

definition write_request_number :: "int \<Rightarrow> (thread, unit) state" where
  "write_request_number v = write_field F_request_number (\<lambda>c. c\<lparr>request_number := v\<rparr>)"

definition read_replies_received :: "(thread, int) state" where
  "read_replies_received = read_field F_replies_received replies_received"

definition write_replies_received :: "int \<Rightarrow> (thread, unit) state" where
  "write_replies_received v = write_field F_replies_received (\<lambda>c. c\<lparr>replies_received := v\<rparr>)"

definition read_deferred_requests :: "(thread, (int \<times> int) list) state" where
  "read_deferred_requests = read_field F_deferred_requests deferred_requests"

definition write_deferred_requests :: "(int \<times> int) list \<Rightarrow> (thread, unit) state" where
  "write_deferred_requests v = write_field F_deferred_requests (\<lambda>c. c\<lparr>deferred_requests := v\<rparr>)"

definition read_total_prints :: "(thread, int) state" where
  "read_total_prints = read_field F_total_prints total_prints"

definition write_total_prints :: "int \<Rightarrow> (thread, unit) state" where
  "write_total_prints v = write_field F_total_prints (\<lambda>c. c\<lparr>total_prints := v\<rparr>)"

definition read_running :: "(thread, bool) state" where
  "read_running = read_field F_running running"

text \<open>The clock's methods (lamport\_clock.py) and \<open>log\<close>, which reads \<open>client_id\<close> and
  calls \<open>clock.get_time()\<close>.\<close>

definition increment_m :: "(thread, int) state" where
  "increment_m = do {
     t \<leftarrow> read_time;
     write_time (t + 1);
     read_time
   }"

definition update_m :: "int \<Rightarrow> (thread, int) state" where
  "update_m received_time = do {
     t \<leftarrow> read_time;
     write_time (max t received_time + 1);
     read_time
   }"

definition get_time_m :: "(thread, int) state" where
  "get_time_m = read_time"

definition log_m :: "(thread, unit) state" where
  "log_m = do {
     cid \<leftarrow> read_client_id;
     t \<leftarrow> get_time_m;
     State_Monad.return ()
   }"

text \<open>The inbound handlers.\<close>

definition RequestAccess_m :: "AccessRequest \<Rightarrow> (thread, AccessResponse) state" where
  "RequestAccess_m request = do {
     t \<leftarrow> update_m (req_lamport_timestamp request);
     with_lock (do {
       let requesting_client = req_client_id request;
       let requesting_timestamp = req_lamport_timestamp request;
       req \<leftarrow> read_requesting;
       should_grant \<leftarrow>
         (if \<not> req then State_Monad.return True
          else do {
            own_timestamp \<leftarrow> read_request_timestamp;
            own_id \<leftarrow> read_client_id;
            State_Monad.return
              (tuple_lt (requesting_timestamp, requesting_client) (own_timestamp, own_id))
          });
       if should_grant then do {
         response_timestamp \<leftarrow> increment_m;
         log_m;
         State_Monad.return
           \<lparr>access_granted = True, resp_lamport_timestamp = response_timestamp\<rparr>
       } else do {
         deferred \<leftarrow> read_deferred_requests;
         write_deferred_requests
           (deferred @ [(requesting_client, req_lamport_timestamp request)]);
         log_m;
         response_timestamp \<leftarrow> increment_m;
         State_Monad.return
           \<lparr>access_granted = False, resp_lamport_timestamp = response_timestamp\<rparr>
       }
     })
   }"

definition ReleaseAccess_m :: "ReleaseMessage \<Rightarrow> (thread, ReleaseResponse) state" where
  "ReleaseAccess_m request = do {
     t \<leftarrow> update_m (rel_lamport_timestamp request);
     with_lock (do {
       log_m;
       response_timestamp \<leftarrow> increment_m;
       State_Monad.return \<lparr>acknowledged = True\<rparr>
     })
   }"

text \<open>The requesting path. The polling loop gets fuel: the number of polls it may make
  before the model gives up with \<open>None\<close>.\<close>

definition count_reply_m :: "(thread, unit) state" where
  "count_reply_m = do {
     r \<leftarrow> read_replies_received;
     write_replies_received (r + 1)
   }"

definition send_access_request_m ::
  "int \<Rightarrow> string \<Rightarrow> int \<Rightarrow> int \<Rightarrow> AccessResponse rpc_result \<Rightarrow> (thread, AccessRequest) state" where
  "send_access_request_m target_client_id target_address request_num timestamp result = do {
     cid \<leftarrow> read_client_id;
     let request = \<lparr>req_client_id = cid, req_lamport_timestamp = timestamp,
                    req_request_number = request_num\<rparr>;
     case result of
       Reply response \<Rightarrow> do {
         t \<leftarrow> update_m (resp_lamport_timestamp response);
         (if access_granted response then
            with_lock (do {
              count_reply_m;
              shown \<leftarrow> read_replies_received;
              others \<leftarrow> read_other_clients;
              log_m
            })
          else
            with_lock (do {
              count_reply_m;
              shown \<leftarrow> read_replies_received;
              others \<leftarrow> read_other_clients;
              log_m
            }));
         State_Monad.return request
       }
     | RpcError \<Rightarrow> do {
         log_m;
         with_lock count_reply_m;
         State_Monad.return request
       }
   }"

fun send_requests_m ::
  "(int \<times> string) list \<Rightarrow> int \<Rightarrow> int \<Rightarrow> (nat \<Rightarrow> AccessResponse rpc_result) \<Rightarrow> nat
     \<Rightarrow> (thread, (string \<times> AccessRequest) list) state" where
  "send_requests_m [] current_request current_timestamp net k = State_Monad.return []"
| "send_requests_m ((other_client_id, other_client_address) # rest)
       current_request current_timestamp net k = do {
     request \<leftarrow> send_access_request_m other_client_id other_client_address
                  current_request current_timestamp (net k);
     sent \<leftarrow> send_requests_m rest current_request current_timestamp net (Suc k);
     State_Monad.return ((other_client_address, request) # sent)
   }"

fun wait_for_replies_m :: "int \<Rightarrow> nat \<Rightarrow> nat \<Rightarrow> (thread, nat option) state" where
  "wait_for_replies_m required_replies sleeps 0 = State_Monad.return None"
| "wait_for_replies_m required_replies sleeps (Suc fuel) = do {
     done \<leftarrow> with_lock (do {
       r \<leftarrow> read_replies_received;
       State_Monad.return (r \<ge> required_replies)
     });
     if done then State_Monad.return (Some sleeps)
     else wait_for_replies_m required_replies (Suc sleeps) fuel
   }"

definition request_critical_section_m ::
  "(nat \<Rightarrow> AccessResponse rpc_result) \<Rightarrow> nat
     \<Rightarrow> (thread, ((string \<times> AccessRequest) list \<times> nat) option) state" where
  "request_critical_section_m net fuel = do {
     (current_request, current_timestamp) \<leftarrow> with_lock (do {
       write_requesting True;
       n \<leftarrow> read_request_number;
       write_request_number (n + 1);
       ts \<leftarrow> increment_m;
       write_request_timestamp ts;
       write_replies_received 0;
       current_request \<leftarrow> read_request_number;
       current_timestamp \<leftarrow> read_request_timestamp;
       State_Monad.return (current_request, current_timestamp)
     });
     log_m;
     others \<leftarrow> read_other_clients;
     sent \<leftarrow> send_requests_m others current_request current_timestamp net 0;
     others_again \<leftarrow> read_other_clients;
     let required_replies = int (length others_again);
     waited \<leftarrow> wait_for_replies_m required_replies 0 fuel;
     case waited of
       None \<Rightarrow> State_Monad.return None
     | Some sleeps \<Rightarrow> do {
         log_m;
         State_Monad.return (Some (sent, sleeps))
       }
   }"

text \<open>Release and printing.\<close>

definition send_release_notification_m ::
  "int \<Rightarrow> string \<Rightarrow> int \<Rightarrow> ReleaseResponse rpc_result \<Rightarrow> (thread, ReleaseMessage) state" where
  "send_release_notification_m target_client_id target_address timestamp result = do {
     cid \<leftarrow> read_client_id;
     rn \<leftarrow> read_request_number;
     let release_msg = \<lparr>rel_client_id = cid, rel_lamport_timestamp = timestamp,
                        rel_request_number = rn\<rparr>;
     case result of
       Reply response \<Rightarrow> State_Monad.return release_msg
     | RpcError \<Rightarrow> do {
         log_m;
         State_Monad.return release_msg
       }
   }"

fun send_releases_m ::
  "(int \<times> string) list \<Rightarrow> int \<Rightarrow> (nat \<Rightarrow> ReleaseResponse rpc_result) \<Rightarrow> nat
     \<Rightarrow> (thread, (string \<times> ReleaseMessage) list) state" where
  "send_releases_m [] release_timestamp net k = State_Monad.return []"
| "send_releases_m ((other_client_id, other_client_address) # rest) release_timestamp net k = do {
     msg \<leftarrow> send_release_notification_m other_client_id other_client_address
              release_timestamp (net k);
     sent \<leftarrow> send_releases_m rest release_timestamp net (Suc k);
     State_Monad.return ((other_client_address, msg) # sent)
   }"

fun log_deferred_m :: "(int \<times> int) list \<Rightarrow> (thread, unit) state" where
  "log_deferred_m [] = State_Monad.return ()"
| "log_deferred_m (d # rest) = do {
     log_m;
     log_deferred_m rest
   }"

definition release_critical_section_m ::
  "(nat \<Rightarrow> ReleaseResponse rpc_result)
     \<Rightarrow> (thread, (string \<times> ReleaseMessage) list \<times> int list) state" where
  "release_critical_section_m net = do {
     (deferred, release_timestamp) \<leftarrow> with_lock (do {
       write_requesting False;
       deferred \<leftarrow> read_deferred_requests;
       write_deferred_requests [];
       release_timestamp \<leftarrow> increment_m;
       State_Monad.return (deferred, release_timestamp)
     });
     log_m;
     others \<leftarrow> read_other_clients;
     sent \<leftarrow> send_releases_m others release_timestamp net 0;
     log_deferred_m deferred;
     State_Monad.return (sent, map fst deferred)
   }"

definition send_to_printer_m :: "PrintResponse rpc_result \<Rightarrow> (thread, unit) state" where
  "send_to_printer_m result = do {
     timestamp \<leftarrow> increment_m;
     cid \<leftarrow> read_client_id;
     rn \<leftarrow> read_request_number;
     log_m;
     case result of
       Reply response \<Rightarrow> do {
         t \<leftarrow> update_m (print_lamport_timestamp response);
         if success response then do {
           n \<leftarrow> read_total_prints;
           write_total_prints (n + 1);
           log_m
         } else log_m
       }
     | RpcError \<Rightarrow> log_m
   }"

definition print_document_m ::
  "(nat \<Rightarrow> AccessResponse rpc_result) \<Rightarrow> nat \<Rightarrow> PrintResponse rpc_result
     \<Rightarrow> (nat \<Rightarrow> ReleaseResponse rpc_result) \<Rightarrow> (thread, bool) state" where
  "print_document_m net fuel printed rnet = do {
     entered \<leftarrow> request_critical_section_m net fuel;
     case entered of
       None \<Rightarrow> State_Monad.return False
     | Some e \<Rightarrow> do {
         send_to_printer_m printed;
         released \<leftarrow> release_critical_section_m rnet;
         State_Monad.return True
       }
   }"

text \<open>One turn of the loop of \<open>run_automatic_requests\<close>; the result says whether the
  loop goes on. Then \<open>start_server\<close>, as far as it touches the fields modelled, and
  \<open>show_status\<close>. The remaining methods make no access to record: \<open>stop_server\<close>
  touches the server object only, and the constructor writes the fields before the
  object is shared with any other thread (its result is \<open>IntelligentClient_init\<close>).\<close>

definition automatic_request_m ::
  "(nat \<Rightarrow> AccessResponse rpc_result) \<Rightarrow> nat \<Rightarrow> PrintResponse rpc_result
     \<Rightarrow> (nat \<Rightarrow> ReleaseResponse rpc_result) \<Rightarrow> (thread, bool) state" where
  "automatic_request_m net fuel printed rnet = do {
     r \<leftarrow> read_running;
     if \<not> r then State_Monad.return False
     else do {
       log_m;
       still \<leftarrow> read_running;
       if \<not> still then State_Monad.return False
       else do {
         log_m;
         finished \<leftarrow> print_document_m net fuel printed rnet;
         if finished then do {
           n \<leftarrow> read_total_prints;
           log_m;
           State_Monad.return True
         } else State_Monad.return False
       }
     }
   }"

definition start_server_m :: "(thread, unit) state" where
  "start_server_m = do {
     port \<leftarrow> read_client_port;
     shown \<leftarrow> read_client_port;
     log_m
   }"

definition show_status_m :: "(thread, unit) state" where
  "show_status_m = do {
     cid \<leftarrow> read_client_id;
     port \<leftarrow> read_client_port;
     t \<leftarrow> get_time_m;
     req \<leftarrow> read_requesting;
     n \<leftarrow> read_total_prints;
     deferred \<leftarrow> read_deferred_requests;
     State_Monad.return ()
   }"

text \<open>The accesses a method makes when a thread that does not hold the lock calls it on
  the object \<open>c\<close>, its result and the object it leaves.\<close>

definition accesses_of :: "(thread, 'a) state \<Rightarrow> IntelligentClient \<Rightarrow> access list" where
  "accesses_of m c = accesses (snd (run_state m (thread_init c)))"

definition result_of :: "(thread, 'a) state \<Rightarrow> IntelligentClient \<Rightarrow> 'a" where
  "result_of m c = fst (run_state m (thread_init c))"

definition object_after :: "(thread, 'a) state \<Rightarrow> IntelligentClient \<Rightarrow> IntelligentClient" where
  "object_after m c = self_obj (snd (run_state m (thread_init c)))"

text \<open>Every access in the list to one of the given fields holds the lock.\<close>

definition guarded :: "field list \<Rightarrow> access list \<Rightarrow> bool" where
  "guarded fs tr = list_all (\<lambda>(m, f, held). f \<in> set fs \<longrightarrow> held) tr"

definition exclusion_fields :: "field list" where
  "exclusion_fields = [F_requesting, F_request_timestamp, F_replies_received, F_deferred_requests]"

subsection \<open>Two peers in a tie\<close>

text \<open>Peer 1 and peer 2 of the default configuration, each with its clock at 4 when it
  starts a request: both requests carry timestamp 5.\<close>

definition peer_A :: IntelligentClient where
  "peer_A = request_locked
     ((IntelligentClient_init 1 50052 ''localhost:50051'' [(2, ''localhost:50053'')])
        \<lparr>clock := \<lparr>time = 4\<rparr>\<rparr>)"

definition peer_B :: IntelligentClient where
  "peer_B = request_locked
     ((IntelligentClient_init 2 50053 ''localhost:50051'' [(1, ''localhost:50052'')])
        \<lparr>clock := \<lparr>time = 4\<rparr>\<rparr>)"

section \<open>Verified properties\<close>

subsection \<open>Helper lemmas\<close>

lemma time_clock_step: "time c < time (clock_step c k)"
  by (cases k) (simp_all add: increment_def update_def Let_def)

lemma clock_run_increasing: "sorted_wrt (<) (time c # clock_run c ks)"
proof (induction ks arbitrary: c)
  case Nil
  show ?case by simp
next
  case (Cons k ks)
  have step: "time c < time (clock_step c k)" by (rule time_clock_step)
  have rest: "sorted_wrt (<) (time (clock_step c k) # clock_run (clock_step c k) ks)"
    by (rule Cons.IH)
  have "\<forall>y \<in> set (clock_run (clock_step c k) ks). time (clock_step c k) < y"
    using rest by simp
  then have "\<forall>y \<in> set (clock_run (clock_step c k) ks). time c < y"
    using step by fastforce
  then show ?case using step rest by simp
qed

lemma tuple_lt_spec: "tuple_lt a b = spec_lt a b"
  by (cases a; cases b) (auto simp: tuple_lt_def spec_lt_def)

lemma should_grant_iff:
  "should_grant (update_clock self ts) request =
     (\<not> requesting self \<or>
      tuple_lt (req_lamport_timestamp request, req_client_id request)
               (request_timestamp self, client_id self))"
  by (simp add: should_grant_def update_clock_def Let_def)

lemma send_release_notification_state:
  "snd (send_release_notification self i a ts r) = self"
  by (simp add: send_release_notification_def Let_def split: rpc_result.splits)

lemma send_releases_state: "snd (send_releases self ps ts net k) = self"
proof (induction ps arbitrary: self k)
  case Nil
  show ?case by simp
next
  case (Cons p ps)
  obtain i a where p: "p = (i, a)" by (cases p)
  show ?case
    by (simp add: p split_beta Let_def Cons.IH send_release_notification_state)
qed

lemma release_critical_section_state:
  "snd (release_critical_section self net) = snd (release_locked self)"
  by (simp add: release_critical_section_def split_beta send_releases_state)

lemma release_locked_state:
  "snd (release_locked self) =
     self\<lparr>requesting := False, deferred_requests := [], clock := snd (increment (clock self))\<rparr>"
  by (simp add: release_locked_def increment_def Let_def)

lemma send_access_request_replies:
  "replies_received (snd (send_access_request self i a rn ts r)) = replies_received self + 1"
  by (simp add: send_access_request_def update_clock_def Let_def split: rpc_result.splits)

lemma send_access_request_others:
  "other_clients (snd (send_access_request self i a rn ts r)) = other_clients self"
  by (simp add: send_access_request_def update_clock_def Let_def split: rpc_result.splits)

lemma send_requests_replies:
  "replies_received (snd (send_requests self ps rn ts net k)) =
     replies_received self + int (length ps)"
proof (induction ps arbitrary: self k)
  case Nil
  show ?case by simp
next
  case (Cons p ps)
  obtain i a where p: "p = (i, a)" by (cases p)
  show ?case
    by (simp add: p split_beta Let_def Cons.IH send_access_request_replies)
qed

lemma send_requests_others:
  "other_clients (snd (send_requests self ps rn ts net k)) = other_clients self"
proof (induction ps arbitrary: self k)
  case Nil
  show ?case by simp
next
  case (Cons p ps)
  obtain i a where p: "p = (i, a)" by (cases p)
  show ?case
    by (simp add: p split_beta Let_def Cons.IH send_access_request_others)
qed

lemma send_requests_length: "length (fst (send_requests self ps rn ts net k)) = length ps"
proof (induction ps arbitrary: self k)
  case Nil
  show ?case by simp
next
  case (Cons p ps)
  obtain i a where p: "p = (i, a)" by (cases p)
  show ?case
    by (simp add: p split_beta Let_def Cons.IH)
qed

lemma wait_for_replies_Some:
  assumes "wait_for_replies self required k = Some n"
  shows "replies_received self \<ge> required"
proof (rule wait_for_replies.raw_induct
    [where P = "\<lambda>s r k n. r \<le> replies_received s", OF _ assms])
  fix w :: "IntelligentClient \<Rightarrow> int \<Rightarrow> nat \<Rightarrow> nat option"
    and s :: IntelligentClient and r :: int and k n :: nat
  assume ih: "\<And>s r k n. w s r k = Some n \<Longrightarrow> r \<le> replies_received s"
    and eq: "(if r \<le> replies_received s then Some k else w s r (Suc k)) = Some n"
  show "r \<le> replies_received s"
  proof (cases "r \<le> replies_received s")
    case True
    then show ?thesis .
  next
    case False
    with eq have "w s r (Suc k) = Some n" by simp
    then show ?thesis by (rule ih)
  qed
qed

lemma wait_for_replies_iff:
  "(wait_for_replies self required k \<noteq> None) = (replies_received self \<ge> required)"
proof
  assume "wait_for_replies self required k \<noteq> None"
  then obtain n where "wait_for_replies self required k = Some n" by auto
  then show "replies_received self \<ge> required" by (rule wait_for_replies_Some)
next
  assume "replies_received self \<ge> required"
  then show "wait_for_replies self required k \<noteq> None"
    by (simp add: wait_for_replies.simps [of self required k])
qed

lemma request_locked_state:
  "request_locked self =
     self\<lparr>requesting := True, request_number := request_number self + 1,
          clock := snd (increment (clock self)),
          request_timestamp := time (clock self) + 1, replies_received := 0\<rparr>"
  by (simp add: request_locked_def increment_def Let_def)

lemma deferred_ok_frame:
  "deferred_requests c' = deferred_requests c \<Longrightarrow> requesting c' = requesting c \<Longrightarrow>
   request_timestamp c' = request_timestamp c \<Longrightarrow> client_id c' = client_id c \<Longrightarrow>
   deferred_ok c' = deferred_ok c"
  by (simp add: deferred_ok_def)

lemma deferred_ok_update_clock: "deferred_ok (update_clock c ts) = deferred_ok c"
  by (rule deferred_ok_frame) (simp_all add: update_clock_def)

lemma requesting_update_clock: "requesting (update_clock c ts) = requesting c"
  by (simp add: update_clock_def)

lemma deferred_ok_request_locked:
  "deferred_ok c \<Longrightarrow> \<not> requesting c \<Longrightarrow> deferred_ok (request_locked c)"
  by (auto simp: deferred_ok_def request_locked_state)

lemma deferred_ok_release_locked:
  "deferred_ok (snd (release_locked c)) \<and> \<not> requesting (snd (release_locked c))"
  by (simp add: deferred_ok_def release_locked_state)

lemma RequestAccess_locked_state:
  "snd (RequestAccess_locked c r) =
     (if should_grant c r then c\<lparr>clock := snd (increment (clock c))\<rparr>
      else c\<lparr>deferred_requests := deferred_requests c @ [(req_client_id r, req_lamport_timestamp r)],
             clock := snd (increment (clock c))\<rparr>)"
  by (simp add: RequestAccess_locked_def increment_def Let_def)

lemma ReleaseAccess_locked_state:
  "snd (ReleaseAccess_locked c) = c\<lparr>clock := snd (increment (clock c))\<rparr>"
  by (simp add: ReleaseAccess_locked_def increment_def Let_def)

lemma deferred_ok_handle_locked: "deferred_ok c \<Longrightarrow> deferred_ok (handle_locked c m)"
proof (cases m)
  case (Req r)
  assume ok: "deferred_ok c"
  show ?thesis
  proof (cases "should_grant c r")
    case True
    with ok Req show ?thesis
      by (simp add: RequestAccess_locked_state deferred_ok_def)
  next
    case False
    with ok Req show ?thesis
      by (simp add: RequestAccess_locked_state deferred_ok_def should_grant_def Let_def)
  qed
next
  case (Rel x)
  assume "deferred_ok c"
  with Rel show ?thesis
    by (simp add: ReleaseAccess_locked_state deferred_ok_def)
qed

lemma requesting_handle_locked: "requesting (handle_locked c m) = requesting c"
  by (cases m) (simp_all add: RequestAccess_locked_state ReleaseAccess_locked_state)

lemma phase_ok_fire:
  assumes "fire e s = Some s'" and "phase_ok s"
  shows "phase_ok s'"
proof -
  obtain ph pend c where s: "s = (ph, pend, c)" by (cases s)
  from assms(2) have ok: "deferred_ok c" and idle: "ph = Idle \<longrightarrow> \<not> requesting c"
    by (simp_all add: s phase_ok_def)
  show ?thesis
  proof (cases e)
    case OwnRequest
    with assms(1) ok idle show ?thesis
      by (auto simp: s phase_ok_def Let_def deferred_ok_request_locked split: phase.splits)
  next
    case (OwnSendReply response)
    with assms(1) ok show ?thesis
      by (auto simp: s phase_ok_def deferred_ok_update_clock split: phase.splits list.splits)
  next
    case OwnSendError
    with assms(1) ok show ?thesis
      by (auto simp: s phase_ok_def split: phase.splits list.splits)
  next
    case OwnCount
    with assms(1) ok show ?thesis
      by (auto simp: s phase_ok_def deferred_ok_def split: phase.splits)
  next
    case OwnSent
    with assms(1) ok show ?thesis
      by (auto simp: s phase_ok_def split: phase.splits list.splits)
  next
    case OwnPoll
    with assms(1) ok show ?thesis
      by (auto simp: s phase_ok_def split: phase.splits if_splits)
  next
    case OwnPrintSend
    with assms(1) ok show ?thesis
      by (auto simp: s phase_ok_def deferred_ok_def split: phase.splits)
  next
    case (OwnPrintDone result)
    with assms(1) ok show ?thesis
      by (auto simp: s phase_ok_def deferred_ok_def update_clock_def Let_def
          split: phase.splits rpc_result.splits if_splits)
  next
    case OwnRelease
    with assms(1) show ?thesis
      by (auto simp: s phase_ok_def deferred_ok_release_locked split: phase.splits)
  next
    case (Arrive m)
    with assms(1) ok idle show ?thesis
      by (auto simp: s phase_ok_def deferred_ok_update_clock requesting_update_clock)
  next
    case (Handle k)
    with assms(1) ok idle show ?thesis
      by (auto simp: s phase_ok_def deferred_ok_handle_locked requesting_handle_locked
          split: if_splits)
  qed
qed

lemma phase_ok_run: "run es s = Some s' \<Longrightarrow> phase_ok s \<Longrightarrow> phase_ok s'"
proof (induction es arbitrary: s)
  case Nil
  then show ?case by simp
next
  case (Cons e es)
  from Cons.prems(1) obtain s1 where f: "fire e s = Some s1" and r: "run es s1 = Some s'"
    by (auto split: option.splits)
  from f Cons.prems(2) have "phase_ok s1" by (rule phase_ok_fire)
  with r show ?case by (rule Cons.IH)
qed

lemma phase_ok_initial: "phase_ok (initial cid port srv others)"
  by (simp add: phase_ok_def initial_def deferred_ok_def IntelligentClient_init_def)

lemma fire_queue:
  assumes "fire e (ph0, pend0, c0) = Some (ph1, pend1, c1)"
  shows "deferred_requests c1 = deferred_requests c0 \<or>
    (e = OwnRelease \<and> deferred_requests c1 = []) \<or>
    (\<exists>k r. e = Handle k \<and> k < length pend0 \<and> pend0 ! k = Req r \<and> requesting c0 \<and>
           \<not> tuple_lt (req_lamport_timestamp r, req_client_id r)
                       (request_timestamp c0, client_id c0) \<and>
           deferred_requests c1 =
             deferred_requests c0 @ [(req_client_id r, req_lamport_timestamp r)])"
proof (cases e)
  case OwnRequest
  with assms show ?thesis
    by (auto simp: Let_def request_locked_state split: phase.splits)
next
  case (OwnSendReply response)
  with assms show ?thesis
    by (auto simp: update_clock_def split: phase.splits list.splits)
next
  case OwnSendError
  with assms show ?thesis by (auto split: phase.splits list.splits)
next
  case OwnCount
  with assms show ?thesis by (auto split: phase.splits)
next
  case OwnSent
  with assms show ?thesis by (auto split: phase.splits list.splits)
next
  case OwnPoll
  with assms show ?thesis by (auto split: phase.splits if_splits)
next
  case OwnPrintSend
  with assms show ?thesis by (auto split: phase.splits)
next
  case (OwnPrintDone result)
  with assms show ?thesis
    by (auto simp: update_clock_def Let_def split: phase.splits rpc_result.splits if_splits)
next
  case OwnRelease
  with assms show ?thesis
    by (auto simp: release_locked_state split: phase.splits)
next
  case (Arrive m)
  with assms show ?thesis by (auto simp: update_clock_def)
next
  case (Handle k)
  with assms have k: "k < length pend0" and c1: "c1 = handle_locked c0 (pend0 ! k)"
    by (auto split: if_splits)
  show ?thesis
  proof (cases "pend0 ! k")
    case (Req r)
    show ?thesis
    proof (cases "should_grant c0 r")
      case True
      with c1 Req show ?thesis by (simp add: RequestAccess_locked_state)
    next
      case False
      with c1 Req k Handle show ?thesis
        by (simp add: RequestAccess_locked_state should_grant_def Let_def)
    qed
  next
    case (Rel m)
    with c1 show ?thesis by (simp add: ReleaseAccess_locked_state)
  qed
qed

text \<open>What the instrumented methods do to the thread state.\<close>

lemma run_read_field:
  "run_state (read_field f g) s =
     (g (self_obj s), s\<lparr>accesses := accesses s @ [(Read, f, lock_held s)]\<rparr>)"
  by (simp add: read_field_def)

lemma run_write_field:
  "run_state (write_field f u) s =
     ((), s\<lparr>self_obj := u (self_obj s), accesses := accesses s @ [(Write, f, lock_held s)]\<rparr>)"
  by (simp add: write_field_def)

lemma run_with_lock:
  "run_state (with_lock body) s =
     (fst (run_state body (s\<lparr>lock_held := True\<rparr>)),
      (snd (run_state body (s\<lparr>lock_held := True\<rparr>)))\<lparr>lock_held := False\<rparr>)"
  by (simp add: with_lock_def split_beta)

lemmas field_defs =
  read_client_id_def read_client_port_def read_other_clients_def read_time_def write_time_def
  read_requesting_def write_requesting_def read_request_timestamp_def
  write_request_timestamp_def read_request_number_def write_request_number_def
  read_replies_received_def write_replies_received_def read_deferred_requests_def
  write_deferred_requests_def read_total_prints_def write_total_prints_def read_running_def

lemmas run_simps = run_read_field run_write_field run_with_lock field_defs split_beta Let_def

lemma run_increment_m:
  "run_state increment_m s =
     (time (clock (self_obj s)) + 1,
      s\<lparr>self_obj := (self_obj s)\<lparr>clock := snd (increment (clock (self_obj s)))\<rparr>,
        accesses := accesses s @ [(Read, F_clock, lock_held s), (Write, F_clock, lock_held s),
                                  (Read, F_clock, lock_held s)]\<rparr>)"
  by (simp add: increment_m_def increment_def run_simps)

lemma run_update_m:
  "run_state (update_m x) s =
     (max (time (clock (self_obj s))) x + 1,
      s\<lparr>self_obj := update_clock (self_obj s) x,
        accesses := accesses s @ [(Read, F_clock, lock_held s), (Write, F_clock, lock_held s),
                                  (Read, F_clock, lock_held s)]\<rparr>)"
  by (simp add: update_m_def update_def update_clock_def run_simps)

lemma run_log_m:
  "run_state log_m s =
     ((), s\<lparr>accesses := accesses s @ [(Read, F_client_id, lock_held s),
                                       (Read, F_clock, lock_held s)]\<rparr>)"
  by (simp add: log_m_def get_time_m_def run_simps)

lemma guarded_append: "guarded fs (xs @ ys) = (guarded fs xs \<and> guarded fs ys)"
  by (simp add: guarded_def)


lemma guarded_Nil: "guarded fs [] = True"
  by (simp add: guarded_def)

lemma guarded_Cons:
  "guarded fs ((m, f, h) # xs) = ((f \<in> set fs \<longrightarrow> h) \<and> guarded fs xs)"
  by (simp add: guarded_def)

lemmas unfold_m = run_update_m run_increment_m run_log_m run_simps update_clock_def
  increment_def update_def guarded_append guarded_Nil guarded_Cons

lemma RequestAccess_m_run:
  "\<not> lock_held s \<Longrightarrow>
   fst (run_state (RequestAccess_m request) s) = fst (RequestAccess (self_obj s) request) \<and>
   self_obj (snd (run_state (RequestAccess_m request) s)) = snd (RequestAccess (self_obj s) request) \<and>
   \<not> lock_held (snd (run_state (RequestAccess_m request) s)) \<and>
   guarded exclusion_fields (accesses (snd (run_state (RequestAccess_m request) s))) =
     guarded exclusion_fields (accesses s) \<and>
   set (accesses s) \<union> {(Write, F_clock, False)}
     \<subseteq> set (accesses (snd (run_state (RequestAccess_m request) s)))"
  by (simp add: RequestAccess_m_def RequestAccess_def RequestAccess_locked_def should_grant_def
      unfold_m)
     (auto simp: guarded_def exclusion_fields_def)

lemma ReleaseAccess_m_run:
  "\<not> lock_held s \<Longrightarrow>
   fst (run_state (ReleaseAccess_m request) s) = fst (ReleaseAccess (self_obj s) request) \<and>
   self_obj (snd (run_state (ReleaseAccess_m request) s)) = snd (ReleaseAccess (self_obj s) request) \<and>
   \<not> lock_held (snd (run_state (ReleaseAccess_m request) s)) \<and>
   guarded exclusion_fields (accesses (snd (run_state (ReleaseAccess_m request) s))) =
     guarded exclusion_fields (accesses s) \<and>
   set (accesses s) \<union> {(Write, F_clock, False)}
     \<subseteq> set (accesses (snd (run_state (ReleaseAccess_m request) s)))"
  by (simp add: ReleaseAccess_m_def ReleaseAccess_def ReleaseAccess_locked_def unfold_m)
     (auto simp: guarded_def exclusion_fields_def)

lemma send_access_request_m_run:
  "\<not> lock_held s \<Longrightarrow>
   fst (run_state (send_access_request_m i a rn ts r) s) =
     fst (send_access_request (self_obj s) i a rn ts r) \<and>
   self_obj (snd (run_state (send_access_request_m i a rn ts r) s)) =
     snd (send_access_request (self_obj s) i a rn ts r) \<and>
   \<not> lock_held (snd (run_state (send_access_request_m i a rn ts r) s)) \<and>
   guarded exclusion_fields (accesses (snd (run_state (send_access_request_m i a rn ts r) s))) =
     guarded exclusion_fields (accesses s) \<and>
   set (accesses s) \<subseteq> set (accesses (snd (run_state (send_access_request_m i a rn ts r) s)))"
  by (cases r)
     (auto simp: send_access_request_m_def send_access_request_def count_reply_m_def unfold_m
        guarded_def exclusion_fields_def)

lemma send_requests_m_run:
  "\<not> lock_held s \<Longrightarrow>
   fst (run_state (send_requests_m ps rn ts net k) s) =
     fst (send_requests (self_obj s) ps rn ts net k) \<and>
   self_obj (snd (run_state (send_requests_m ps rn ts net k) s)) =
     snd (send_requests (self_obj s) ps rn ts net k) \<and>
   \<not> lock_held (snd (run_state (send_requests_m ps rn ts net k) s)) \<and>
   guarded exclusion_fields (accesses (snd (run_state (send_requests_m ps rn ts net k) s))) =
     guarded exclusion_fields (accesses s) \<and>
   set (accesses s) \<subseteq> set (accesses (snd (run_state (send_requests_m ps rn ts net k) s)))"
proof (induction ps arbitrary: s k)
  case Nil
  then show ?case by simp
next
  case (Cons p ps)
  obtain i a where p: "p = (i, a)" by (cases p)
  let ?s1 = "snd (run_state (send_access_request_m i a rn ts (net k)) s)"
  note one = send_access_request_m_run [OF Cons.prems, of i a rn ts "net k"]
  from one have l1: "\<not> lock_held ?s1" by simp
  note rest = Cons.IH [OF l1, of "Suc k"]
  show ?case
    using one rest by (simp add: p split_beta) blast
qed


lemma wait_for_replies_m_run:
  "\<not> lock_held s \<Longrightarrow>
   self_obj (snd (run_state (wait_for_replies_m required sleeps fuel) s)) = self_obj s \<and>
   \<not> lock_held (snd (run_state (wait_for_replies_m required sleeps fuel) s)) \<and>
   guarded exclusion_fields (accesses (snd (run_state (wait_for_replies_m required sleeps fuel) s))) =
     guarded exclusion_fields (accesses s) \<and>
   set (accesses s) \<subseteq> set (accesses (snd (run_state (wait_for_replies_m required sleeps fuel) s)))"
proof (induction fuel arbitrary: s sleeps)
  case 0
  then show ?case by simp
next
  case (Suc fuel)
  let ?s1 = "s\<lparr>accesses := accesses s @ [(Read, F_replies_received, True)],
               lock_held := False\<rparr>"
  have l1: "\<not> lock_held ?s1" using Suc.prems by simp
  note rest = Suc.IH [OF l1, of "Suc sleeps"]
  show ?case
    using Suc.prems rest
    by (simp add: unfold_m exclusion_fields_def) blast
qed

lemma wait_for_replies_m_res:
  "required \<le> replies_received (self_obj s) \<Longrightarrow>
   fst (run_state (wait_for_replies_m required sleeps (Suc fuel)) s) = Some sleeps"
  by (simp add: unfold_m)

lemma request_critical_section_returns:
  "request_critical_section c net =
     Some (fst (send_requests (request_locked c) (other_clients c)
                  (request_number c + 1) (time (clock c) + 1) net 0),
           0,
           snd (send_requests (request_locked c) (other_clients c)
                  (request_number c + 1) (time (clock c) + 1) net 0))"
proof -
  let ?S = "send_requests (request_locked c) (other_clients c)
              (request_number c + 1) (time (clock c) + 1) net 0"
  have fields: "other_clients (request_locked c) = other_clients c"
    "request_number (request_locked c) = request_number c + 1"
    "request_timestamp (request_locked c) = time (clock c) + 1"
    "replies_received (request_locked c) = 0"
    by (simp_all add: request_locked_state)
  have rep: "replies_received (snd ?S) = int (length (other_clients c))"
    by (simp add: send_requests_replies fields)
  have oth: "other_clients (snd ?S) = other_clients c"
    by (simp add: send_requests_others fields)
  have "wait_for_replies (snd ?S) (int (length (other_clients c))) 0 = Some 0"
    using rep by (simp add: wait_for_replies.simps [of "snd ?S"])
  then show ?thesis
    by (simp add: request_critical_section_def Let_def split_beta fields oth)
qed

lemma request_critical_section_m_run:
  assumes "\<not> lock_held s"
  shows
  "fst (run_state (request_critical_section_m net (Suc fuel)) s) =
     map_option (\<lambda>(sent, sleeps, c'). (sent, sleeps))
       (request_critical_section (self_obj s) net) \<and>
   Some (self_obj (snd (run_state (request_critical_section_m net (Suc fuel)) s))) =
     map_option (\<lambda>(sent, sleeps, c'). c') (request_critical_section (self_obj s) net) \<and>
   \<not> lock_held (snd (run_state (request_critical_section_m net fuel') s)) \<and>
   guarded exclusion_fields (accesses (snd (run_state (request_critical_section_m net fuel') s))) =
     guarded exclusion_fields (accesses s) \<and>
   set (accesses s) \<union> {(Read, F_clock, False)}
     \<subseteq> set (accesses (snd (run_state (request_critical_section_m net fuel') s)))"
proof -
  let ?c = "self_obj s"
  let ?pre = "[(Write, F_requesting, True), (Read, F_request_number, True),
      (Write, F_request_number, True), (Read, F_clock, True), (Write, F_clock, True),
      (Read, F_clock, True), (Write, F_request_timestamp, True),
      (Write, F_replies_received, True), (Read, F_request_number, True),
      (Read, F_request_timestamp, True), (Read, F_client_id, False), (Read, F_clock, False),
      (Read, F_other_clients, False)]"
  let ?s1 = "s\<lparr>self_obj := request_locked ?c, lock_held := False,
               accesses := accesses s @ ?pre\<rparr>"
  let ?rn = "request_number ?c + 1" and ?ts = "time (clock ?c) + 1"
  let ?SM = "run_state (send_requests_m (other_clients ?c) ?rn ?ts net 0) ?s1"
  let ?s2 = "snd ?SM"
  let ?s3 = "?s2\<lparr>accesses := accesses ?s2 @ [(Read, F_other_clients, lock_held ?s2)]\<rparr>"
  let ?W = "\<lambda>f. run_state
      (wait_for_replies_m (int (length (other_clients (self_obj ?s2)))) 0 f) ?s3"
  have l1: "\<not> lock_held ?s1" using assms by simp
  note sm = send_requests_m_run [OF l1, of "other_clients ?c" ?rn ?ts net 0]
  have obj2: "self_obj ?s2 = snd (send_requests (request_locked ?c) (other_clients ?c) ?rn ?ts net 0)"
    using sm by simp
  have oth2: "other_clients (self_obj ?s2) = other_clients ?c"
    by (subst obj2) (simp add: send_requests_others request_locked_state)
  have rep2: "replies_received (self_obj ?s2) = int (length (other_clients ?c))"
    by (subst obj2) (simp add: send_requests_replies request_locked_state)
  have l3: "\<not> lock_held ?s3" using sm by simp
  note w = wait_for_replies_m_run [OF l3, of "int (length (other_clients (self_obj ?s2)))" 0]
  have wres: "fst (?W (Suc fuel)) = Some 0"
    by (rule wait_for_replies_m_res) (simp add: rep2 oth2)
  have unfold: "run_state (request_critical_section_m net f) s =
      (case fst (?W f) of
         None \<Rightarrow> (None, snd (?W f))
       | Some sleeps \<Rightarrow>
           (Some (fst ?SM, sleeps),
            (snd (?W f))\<lparr>accesses := accesses (snd (?W f)) @
               [(Read, F_client_id, lock_held (snd (?W f))),
                (Read, F_clock, lock_held (snd (?W f)))]\<rparr>))" for f
    using assms
    by (simp add: request_critical_section_m_def unfold_m request_locked_state
        split: option.splits)
  have res: "fst (run_state (request_critical_section_m net (Suc fuel)) s) = Some (fst ?SM, 0)"
    by (simp add: unfold wres del: wait_for_replies_m.simps)
  have obj: "self_obj (snd (run_state (request_critical_section_m net (Suc fuel)) s)) = self_obj ?s2"
    using w [of "Suc fuel"] by (simp add: unfold wres del: wait_for_replies_m.simps)
  have lock: "\<not> lock_held (snd (run_state (request_critical_section_m net fuel') s))"
    using w [of fuel'] by (simp add: unfold split: option.splits)
  have g: "guarded exclusion_fields (accesses (snd (run_state (request_critical_section_m net fuel') s))) =
     guarded exclusion_fields (accesses s)"
    using w [of fuel'] sm
    by (simp add: unfold guarded_append guarded_Nil guarded_Cons exclusion_fields_def
        split: option.splits)
  have m: "set (accesses s) \<union> {(Read, F_clock, False)}
     \<subseteq> set (accesses (snd (run_state (request_critical_section_m net fuel') s)))"
  proof -
    have "set (accesses s) \<union> {(Read, F_clock, False)} \<subseteq> set (accesses ?s1)" by auto
    also have "\<dots> \<subseteq> set (accesses ?s2)" using sm by simp
    also have "\<dots> \<subseteq> set (accesses ?s3)" by auto
    also have "\<dots> \<subseteq> set (accesses (snd (?W fuel')))" using w [of fuel'] by simp
    also have "\<dots> \<subseteq> set (accesses (snd (run_state (request_critical_section_m net fuel') s)))"
      by (auto simp: unfold split: option.splits)
    finally show ?thesis .
  qed
  show ?thesis
    using res obj lock g m sm
    by (simp add: request_critical_section_returns obj2)
qed


lemma send_release_notification_m_run:
  "\<not> lock_held s \<Longrightarrow>
   fst (run_state (send_release_notification_m i a ts r) s) =
     fst (send_release_notification (self_obj s) i a ts r) \<and>
   self_obj (snd (run_state (send_release_notification_m i a ts r) s)) = self_obj s \<and>
   \<not> lock_held (snd (run_state (send_release_notification_m i a ts r) s)) \<and>
   guarded exclusion_fields (accesses (snd (run_state (send_release_notification_m i a ts r) s))) =
     guarded exclusion_fields (accesses s) \<and>
   set (accesses s) \<subseteq> set (accesses (snd (run_state (send_release_notification_m i a ts r) s)))"
  by (cases r)
     (auto simp: send_release_notification_m_def send_release_notification_def unfold_m
        guarded_def exclusion_fields_def)

lemma send_releases_m_run:
  "\<not> lock_held s \<Longrightarrow>
   fst (run_state (send_releases_m ps ts net k) s) = fst (send_releases (self_obj s) ps ts net k) \<and>
   self_obj (snd (run_state (send_releases_m ps ts net k) s)) = self_obj s \<and>
   \<not> lock_held (snd (run_state (send_releases_m ps ts net k) s)) \<and>
   guarded exclusion_fields (accesses (snd (run_state (send_releases_m ps ts net k) s))) =
     guarded exclusion_fields (accesses s) \<and>
   set (accesses s) \<subseteq> set (accesses (snd (run_state (send_releases_m ps ts net k) s)))"
proof (induction ps arbitrary: s k)
  case Nil
  then show ?case by simp
next
  case (Cons p ps)
  obtain i a where p: "p = (i, a)" by (cases p)
  let ?s1 = "snd (run_state (send_release_notification_m i a ts (net k)) s)"
  note one = send_release_notification_m_run [OF Cons.prems, of i a ts "net k"]
  from one have l1: "\<not> lock_held ?s1" by simp
  note rest = Cons.IH [OF l1, of "Suc k"]
  show ?case
    using one rest by (simp add: p split_beta send_release_notification_state) blast
qed

lemma log_deferred_m_run:
  "\<not> lock_held s \<Longrightarrow>
   self_obj (snd (run_state (log_deferred_m ds) s)) = self_obj s \<and>
   \<not> lock_held (snd (run_state (log_deferred_m ds) s)) \<and>
   guarded exclusion_fields (accesses (snd (run_state (log_deferred_m ds) s))) =
     guarded exclusion_fields (accesses s) \<and>
   set (accesses s) \<subseteq> set (accesses (snd (run_state (log_deferred_m ds) s)))"
proof (induction ds arbitrary: s)
  case Nil
  then show ?case by simp
next
  case (Cons d ds)
  let ?s1 = "s\<lparr>accesses := accesses s @ [(Read, F_client_id, lock_held s),
                                          (Read, F_clock, lock_held s)]\<rparr>"
  have l1: "\<not> lock_held ?s1" using Cons.prems by simp
  note rest = Cons.IH [OF l1]
  show ?case
    using Cons.prems rest by (simp add: unfold_m exclusion_fields_def)
qed

lemma release_critical_section_m_run:
  assumes "\<not> lock_held s"
  shows
  "fst (run_state (release_critical_section_m net) s) =
     fst (release_critical_section (self_obj s) net) \<and>
   self_obj (snd (run_state (release_critical_section_m net) s)) =
     snd (release_critical_section (self_obj s) net) \<and>
   \<not> lock_held (snd (run_state (release_critical_section_m net) s)) \<and>
   guarded exclusion_fields (accesses (snd (run_state (release_critical_section_m net) s))) =
     guarded exclusion_fields (accesses s) \<and>
   set (accesses s) \<union> {(Read, F_clock, False)}
     \<subseteq> set (accesses (snd (run_state (release_critical_section_m net) s)))"
proof -
  let ?c = "self_obj s"
  let ?pre = "[(Write, F_requesting, True), (Read, F_deferred_requests, True),
      (Write, F_deferred_requests, True), (Read, F_clock, True), (Write, F_clock, True),
      (Read, F_clock, True), (Read, F_client_id, False), (Read, F_clock, False),
      (Read, F_other_clients, False)]"
  let ?s1 = "s\<lparr>self_obj := snd (release_locked ?c), lock_held := False,
               accesses := accesses s @ ?pre\<rparr>"
  let ?SR = "run_state (send_releases_m (other_clients ?c) (time (clock ?c) + 1) net 0) ?s1"
  let ?L = "run_state (log_deferred_m (deferred_requests ?c)) (snd ?SR)"
  have l1: "\<not> lock_held ?s1" by simp
  note sr = send_releases_m_run [OF l1, of "other_clients ?c" "time (clock ?c) + 1" net 0]
  have l2: "\<not> lock_held (snd ?SR)" using sr by simp
  note ld = log_deferred_m_run [OF l2, of "deferred_requests ?c"]
  have unfold: "run_state (release_critical_section_m net) s =
      ((fst ?SR, map fst (deferred_requests ?c)), snd ?L)"
    by (simp add: release_critical_section_m_def unfold_m release_locked_state)
  have res: "fst ?SR = fst (send_releases (snd (release_locked ?c)) (other_clients ?c)
                              (time (clock ?c) + 1) net 0)"
    using sr by simp
  have plain: "fst (release_critical_section ?c net) =
      (fst (send_releases (snd (release_locked ?c)) (other_clients ?c)
              (time (clock ?c) + 1) net 0), map fst (deferred_requests ?c))"
    by (simp add: release_critical_section_def release_locked_def increment_def Let_def
        split_beta)
  have obj: "self_obj (snd ?L) = snd (release_locked ?c)"
    using sr ld by simp
  have g: "guarded exclusion_fields (accesses (snd ?L)) = guarded exclusion_fields (accesses s)"
    using sr ld by (simp add: guarded_append guarded_Nil guarded_Cons exclusion_fields_def)
  have m: "set (accesses s) \<union> {(Read, F_clock, False)} \<subseteq> set (accesses (snd ?L))"
  proof -
    have "set (accesses s) \<union> {(Read, F_clock, False)} \<subseteq> set (accesses ?s1)" by auto
    also have "\<dots> \<subseteq> set (accesses (snd ?SR))" using sr by simp
    also have "\<dots> \<subseteq> set (accesses (snd ?L))" using ld by simp
    finally show ?thesis .
  qed
  show ?thesis
    using ld g m
    by (simp add: unfold res plain obj release_critical_section_state)
qed

lemma send_to_printer_m_run:
  "\<not> lock_held s \<Longrightarrow>
   self_obj (snd (run_state (send_to_printer_m r) s)) = send_to_printer (self_obj s) r \<and>
   \<not> lock_held (snd (run_state (send_to_printer_m r) s)) \<and>
   guarded exclusion_fields (accesses (snd (run_state (send_to_printer_m r) s))) =
     guarded exclusion_fields (accesses s) \<and>
   set (accesses s) \<union> {(Write, F_clock, False)}
     \<subseteq> set (accesses (snd (run_state (send_to_printer_m r) s)))"
  by (cases r)
     (auto simp: send_to_printer_m_def send_to_printer_def unfold_m
        guarded_def exclusion_fields_def)

lemma log_m_run:
  "\<not> lock_held s \<Longrightarrow>
   self_obj (snd (run_state log_m s)) = self_obj s \<and>
   \<not> lock_held (snd (run_state log_m s)) \<and>
   guarded exclusion_fields (accesses (snd (run_state log_m s))) =
     guarded exclusion_fields (accesses s) \<and>
   set (accesses s) \<union> {(Read, F_clock, False)} \<subseteq> set (accesses (snd (run_state log_m s)))"
  by (auto simp: unfold_m guarded_def exclusion_fields_def)

lemma start_server_m_run:
  "\<not> lock_held s \<Longrightarrow>
   self_obj (snd (run_state start_server_m s)) = self_obj s \<and>
   \<not> lock_held (snd (run_state start_server_m s)) \<and>
   guarded exclusion_fields (accesses (snd (run_state start_server_m s))) =
     guarded exclusion_fields (accesses s) \<and>
   set (accesses s) \<subseteq> set (accesses (snd (run_state start_server_m s)))"
  by (auto simp: start_server_m_def unfold_m guarded_def exclusion_fields_def)

lemma print_document_m_run:
  assumes "\<not> lock_held s"
  shows
  "\<not> lock_held (snd (run_state (print_document_m net fuel printed rnet) s)) \<and>
   guarded exclusion_fields (accesses (snd (run_state (print_document_m net fuel printed rnet) s))) =
     guarded exclusion_fields (accesses s) \<and>
   set (accesses s) \<subseteq> set (accesses (snd (run_state (print_document_m net fuel printed rnet) s)))"
proof -
  let ?R = "run_state (request_critical_section_m net fuel) s"
  let ?P = "run_state (send_to_printer_m printed) (snd ?R)"
  let ?L = "run_state (release_critical_section_m rnet) (snd ?P)"
  note r = request_critical_section_m_run [OF assms, of net 0 fuel]
  have l1: "\<not> lock_held (snd ?R)" using r by simp
  note p = send_to_printer_m_run [OF l1, of printed]
  have l2: "\<not> lock_held (snd ?P)" using p by simp
  note l = release_critical_section_m_run [OF l2, of rnet]
  have unfold: "snd (run_state (print_document_m net fuel printed rnet) s) =
      (case fst ?R of None \<Rightarrow> snd ?R | Some e \<Rightarrow> snd ?L)"
    by (simp add: print_document_m_def split_beta split: option.splits)
  have mono: "set (accesses s) \<subseteq> set (accesses (snd ?L))"
  proof -
    have "set (accesses s) \<subseteq> set (accesses (snd ?R))" using r by simp
    also have "\<dots> \<subseteq> set (accesses (snd ?P))" using p by simp
    also have "\<dots> \<subseteq> set (accesses (snd ?L))" using l by simp
    finally show ?thesis .
  qed
  show ?thesis
    using r p l mono by (simp add: unfold split: option.splits)
qed

lemma automatic_request_m_run:
  assumes "\<not> lock_held s"
  shows
  "\<not> lock_held (snd (run_state (automatic_request_m net fuel printed rnet) s)) \<and>
   guarded exclusion_fields
       (accesses (snd (run_state (automatic_request_m net fuel printed rnet) s))) =
     guarded exclusion_fields (accesses s)"
proof -
  let ?s1 = "s\<lparr>accesses := accesses s @
      [(Read, F_running, lock_held s), (Read, F_client_id, lock_held s),
       (Read, F_clock, lock_held s), (Read, F_running, lock_held s),
       (Read, F_client_id, lock_held s), (Read, F_clock, lock_held s)]\<rparr>"
  let ?D = "run_state (print_document_m net fuel printed rnet) ?s1"
  have l1: "\<not> lock_held ?s1" using assms by simp
  note d = print_document_m_run [OF l1, of net fuel printed rnet]
  show ?thesis
    using assms d
    by (simp add: automatic_request_m_def unfold_m exclusion_fields_def)
qed

lemma show_status_m_accesses:
  "accesses_of show_status_m c =
     [(Read, F_client_id, False), (Read, F_client_port, False), (Read, F_clock, False),
      (Read, F_requesting, False), (Read, F_total_prints, False),
      (Read, F_deferred_requests, False)]"
  by (simp add: accesses_of_def thread_init_def show_status_m_def get_time_m_def run_simps)


lemma thread_init_unlocked: "\<not> lock_held (thread_init c)"
  by (simp add: thread_init_def)

lemma thread_init_fields:
  "self_obj (thread_init c) = c" "accesses (thread_init c) = []"
  by (simp_all add: thread_init_def)

lemma guarded_thread_init: "guarded exclusion_fields (accesses (thread_init c))"
  by (simp add: thread_init_def guarded_Nil)

subsection \<open>The clock\<close>

text \<open>
  C5. On a clock at time \<open>t\<close>, \<open>increment\<close> sets the time to \<open>t + 1\<close> and returns it,
  \<open>update x\<close> sets it to \<open>max t x + 1\<close> and returns it, \<open>get_time\<close> returns \<open>t\<close> and leaves
  the clock as it is. Every increment or update call, whatever its argument, makes the
  time strictly larger, so along every sequence of such calls the clock values are
  strictly increasing (hence non-decreasing).
\<close>

theorem LamportClock_monotone:
  "increment c = (time c + 1, c\<lparr>time := time c + 1\<rparr>) \<and>
   update c x = (max (time c) x + 1, c\<lparr>time := max (time c) x + 1\<rparr>) \<and>
   get_time c = (time c, c) \<and>
   time c < time (clock_step c k) \<and>
   sorted_wrt (<) (time c # clock_run c ks) \<and>
   sorted (time c # clock_run c ks)"
proof -
  have s: "sorted_wrt (<) (time c # clock_run c ks)" by (rule clock_run_increasing)
  have "sorted_wrt (\<le>) (time c # clock_run c ks)"
    by (rule sorted_wrt_mono_rel [OF _ s]) simp
  then have "sorted (time c # clock_run c ks)" by simp
  with s show ?thesis
    by (simp add: increment_def update_def get_time_def Let_def time_clock_step
        del: sorted_wrt.simps)
qed

theorem LamportClock_monotone_witness:
  "increment \<lparr>time = 3\<rparr> = (4, \<lparr>time = 4\<rparr>) \<and>
   update \<lparr>time = 3\<rparr> 9 = (10, \<lparr>time = 10\<rparr>) \<and>
   update \<lparr>time = 3\<rparr> (- 2) = (4, \<lparr>time = 4\<rparr>) \<and>
   get_time \<lparr>time = 3\<rparr> = (3, \<lparr>time = 3\<rparr>) \<and>
   clock_run \<lparr>time = 3\<rparr> [Increment, Update 9, Update (- 2), Increment] = [4, 10, 11, 12] \<and>
   sorted_wrt (<) (3 # clock_run \<lparr>time = 3\<rparr> [Increment, Update 9, Update (- 2), Increment])"
  using LamportClock_monotone [of "\<lparr>time = 3\<rparr>" 9 Increment
      "[Increment, Update 9, Update (- 2), Increment]"]
    LamportClock_monotone [of "\<lparr>time = 3\<rparr>" "- 2" Increment "[]"]
  by (simp add: increment_def update_def Let_def)

subsection \<open>The order on requests\<close>

text \<open>
  C4. The comparison used by the grant decision is the relation
  \<open>t1 < t2 \<or> (t1 = t2 \<and> p1 < p2)\<close>, and it is a strict total order on request records:
  irreflexive, transitive, asymmetric, and total: two records with distinct peer ids
  (indeed any two distinct records) are comparable.
\<close>

theorem tuple_lt_strict_total_order:
  "tuple_lt a b = spec_lt a b \<and>
   \<not> tuple_lt a a \<and>
   (tuple_lt a b \<and> tuple_lt b c \<longrightarrow> tuple_lt a c) \<and>
   (tuple_lt a b \<longrightarrow> \<not> tuple_lt b a) \<and>
   (snd a \<noteq> snd b \<longrightarrow> tuple_lt a b \<or> tuple_lt b a) \<and>
   (a \<noteq> b \<longrightarrow> tuple_lt a b \<or> tuple_lt b a)"
  by (cases a; cases b; cases c) (auto simp: tuple_lt_def spec_lt_def)

theorem tuple_lt_strict_total_order_witness:
  "tuple_lt (5, 1) (5, 2) \<and> tuple_lt (5, 2) (7, 3) \<and> tuple_lt (5, 1) (7, 3) \<and>
   \<not> tuple_lt (5, 2) (5, 1) \<and> snd (5 :: int, 1 :: int) \<noteq> snd (5 :: int, 2 :: int) \<and>
   spec_lt (5, 1) (5, 2)"
  using tuple_lt_strict_total_order [of "(5, 1)" "(5, 2)" "(7, 3)"]
  by (simp add: tuple_lt_def)

subsection \<open>The grant decision\<close>

text \<open>
  C1. The handler \<open>RequestAccess\<close> grants exactly when the receiver is not requesting or
  the remote pair (timestamp, id) is below the receiver's (request\_timestamp, client\_id)
  in the lexicographic order. When it grants, the deferred queue is unchanged; otherwise
  the remote request is appended to it and the response says \<open>granted = False\<close>. The
  handler is a total function, so a response is returned in either case, and its
  timestamp is the value of \<open>clock.increment()\<close> called after
  \<open>clock.update(remote timestamp)\<close>, that is, \<open>max t remote + 2\<close>. Nothing but the clock
  and the deferred queue changes.
\<close>

theorem RequestAccess_decision:
  "access_granted (fst (RequestAccess self request)) =
     (\<not> requesting self \<or>
      spec_lt (req_lamport_timestamp request, req_client_id request)
              (request_timestamp self, client_id self)) \<and>
   snd (RequestAccess self request) =
     self\<lparr>clock := snd (increment (snd (update (clock self) (req_lamport_timestamp request)))),
          deferred_requests :=
            (if access_granted (fst (RequestAccess self request)) then deferred_requests self
             else deferred_requests self @ [(req_client_id request, req_lamport_timestamp request)])\<rparr> \<and>
   resp_lamport_timestamp (fst (RequestAccess self request)) =
     fst (increment (snd (update (clock self) (req_lamport_timestamp request)))) \<and>
   resp_lamport_timestamp (fst (RequestAccess self request)) =
     max (time (clock self)) (req_lamport_timestamp request) + 2"
proof (cases "should_grant (update_clock self (req_lamport_timestamp request)) request")
  case True
  then show ?thesis
    using should_grant_iff [of self "req_lamport_timestamp request" request]
    by (simp add: RequestAccess_def RequestAccess_locked_def update_clock_def increment_def
        update_def Let_def tuple_lt_spec)
next
  case False
  then show ?thesis
    using should_grant_iff [of self "req_lamport_timestamp request" request]
    by (simp add: RequestAccess_def RequestAccess_locked_def update_clock_def increment_def
        update_def Let_def tuple_lt_spec)
qed

theorem RequestAccess_decision_witness:
  "RequestAccess peer_A \<lparr>req_client_id = 2, req_lamport_timestamp = 5, req_request_number = 1\<rparr> =
     (\<lparr>access_granted = False, resp_lamport_timestamp = 7\<rparr>,
      peer_A\<lparr>clock := \<lparr>time = 7\<rparr>, deferred_requests := [(2, 5)]\<rparr>) \<and>
   requesting peer_A \<and>
   \<not> spec_lt (5, 2) (request_timestamp peer_A, client_id peer_A) \<and>
   RequestAccess peer_B \<lparr>req_client_id = 1, req_lamport_timestamp = 5, req_request_number = 1\<rparr> =
     (\<lparr>access_granted = True, resp_lamport_timestamp = 7\<rparr>, peer_B\<lparr>clock := \<lparr>time = 7\<rparr>\<rparr>) \<and>
   spec_lt (5, 1) (request_timestamp peer_B, client_id peer_B)"
  using RequestAccess_decision [of peer_A
      "\<lparr>req_client_id = 2, req_lamport_timestamp = 5, req_request_number = 1\<rparr>"]
    RequestAccess_decision [of peer_B
      "\<lparr>req_client_id = 1, req_lamport_timestamp = 5, req_request_number = 1\<rparr>"]
  by (simp add: peer_A_def peer_B_def request_locked_def IntelligentClient_init_def
      LamportClock_init_def RequestAccess_def RequestAccess_locked_def should_grant_def
      update_clock_def increment_def update_def Let_def tuple_lt_def spec_lt_def)

text \<open>
  C3, as the code has it. In the tie at timestamp 5 between A (id 1) and B (id 2), both
  requesting: B, receiving A's request (5, 1), grants it and queues nothing, because
  (5, 1) is below B's own (5, 2); A, receiving B's request (5, 2), defers it: A appends
  B's request (stored as the pair (client id 2, timestamp 5)) to its deferred queue and
  answers \<open>granted = False\<close>. So A wins the tie.
\<close>

theorem tie_at_five:
  "RequestAccess (B\<lparr>client_id := 2, requesting := True, request_timestamp := 5\<rparr>)
       \<lparr>req_client_id = 1, req_lamport_timestamp = 5, req_request_number = n\<rparr> =
     (\<lparr>access_granted = True,
       resp_lamport_timestamp = max (time (clock B)) 5 + 2\<rparr>,
      B\<lparr>client_id := 2, requesting := True, request_timestamp := 5,
        clock := \<lparr>time = max (time (clock B)) 5 + 2\<rparr>\<rparr>) \<and>
   RequestAccess (A\<lparr>client_id := 1, requesting := True, request_timestamp := 5\<rparr>)
       \<lparr>req_client_id = 2, req_lamport_timestamp = 5, req_request_number = m\<rparr> =
     (\<lparr>access_granted = False,
       resp_lamport_timestamp = max (time (clock A)) 5 + 2\<rparr>,
      A\<lparr>client_id := 1, requesting := True, request_timestamp := 5,
        clock := \<lparr>time = max (time (clock A)) 5 + 2\<rparr>,
        deferred_requests := deferred_requests A @ [(2, 5)]\<rparr>)"
  by (simp add: RequestAccess_def RequestAccess_locked_def should_grant_def update_clock_def
      increment_def update_def Let_def tuple_lt_def)

theorem tie_at_five_witness:
  "access_granted (fst (RequestAccess
       ((IntelligentClient_init 2 50053 ''localhost:50051'' [(1, ''localhost:50052'')])
          \<lparr>client_id := 2, requesting := True, request_timestamp := 5\<rparr>)
       \<lparr>req_client_id = 1, req_lamport_timestamp = 5, req_request_number = 1\<rparr>)) \<and>
   deferred_requests (snd (RequestAccess
       ((IntelligentClient_init 1 50052 ''localhost:50051'' [(2, ''localhost:50053'')])
          \<lparr>client_id := 1, requesting := True, request_timestamp := 5\<rparr>)
       \<lparr>req_client_id = 2, req_lamport_timestamp = 5, req_request_number = 1\<rparr>)) = [(2, 5)]"
  using tie_at_five [of "IntelligentClient_init 2 50053 ''localhost:50051'' [(1, ''localhost:50052'')]" 1
      "IntelligentClient_init 1 50052 ''localhost:50051'' [(2, ''localhost:50053'')]" 1]
  by (simp add: IntelligentClient_init_def)

text \<open>The claim as the specification words it (B defers (5, 1), A grants (5, 2)) fails
  on the two peers of the default configuration.\<close>

theorem tie_at_five_counterexample:
  "\<not> (\<not> access_granted (fst (RequestAccess peer_B
          \<lparr>req_client_id = 1, req_lamport_timestamp = 5, req_request_number = 1\<rparr>)) \<and>
       deferred_requests (snd (RequestAccess peer_B
          \<lparr>req_client_id = 1, req_lamport_timestamp = 5, req_request_number = 1\<rparr>)) = [(1, 5)] \<and>
       access_granted (fst (RequestAccess peer_A
          \<lparr>req_client_id = 2, req_lamport_timestamp = 5, req_request_number = 1\<rparr>)))"
  by (simp add: peer_A_def peer_B_def request_locked_def IntelligentClient_init_def
      LamportClock_init_def RequestAccess_def RequestAccess_locked_def should_grant_def
      update_clock_def increment_def update_def Let_def tuple_lt_def)

subsection \<open>Inbound release\<close>

text \<open>
  C8. \<open>ReleaseAccess\<close> updates the clock with the message's timestamp (and increments
  it once more under the lock), answers \<open>acknowledged = True\<close>, and changes no other
  field: \<open>requesting\<close>, \<open>request_timestamp\<close>, \<open>request_number\<close>, \<open>replies_received\<close>
  and the deferred queue are as before.
\<close>

theorem ReleaseAccess_frame:
  "ReleaseAccess self request =
     (\<lparr>acknowledged = True\<rparr>,
      self\<lparr>clock := snd (increment (snd (update (clock self) (rel_lamport_timestamp request))))\<rparr>) \<and>
   time (clock (snd (ReleaseAccess self request))) =
     max (time (clock self)) (rel_lamport_timestamp request) + 2 \<and>
   requesting (snd (ReleaseAccess self request)) = requesting self \<and>
   request_timestamp (snd (ReleaseAccess self request)) = request_timestamp self \<and>
   request_number (snd (ReleaseAccess self request)) = request_number self \<and>
   replies_received (snd (ReleaseAccess self request)) = replies_received self \<and>
   deferred_requests (snd (ReleaseAccess self request)) = deferred_requests self"
  by (simp add: ReleaseAccess_def ReleaseAccess_locked_def update_clock_def increment_def
      update_def Let_def)

theorem ReleaseAccess_frame_witness:
  "ReleaseAccess (peer_A\<lparr>deferred_requests := [(2, 5)]\<rparr>)
       \<lparr>rel_client_id = 2, rel_lamport_timestamp = 9, rel_request_number = 1\<rparr> =
     (\<lparr>acknowledged = True\<rparr>, peer_A\<lparr>deferred_requests := [(2, 5)], clock := \<lparr>time = 11\<rparr>\<rparr>)"
  using ReleaseAccess_frame [of "peer_A\<lparr>deferred_requests := [(2, 5)]\<rparr>"
      "\<lparr>rel_client_id = 2, rel_lamport_timestamp = 9, rel_request_number = 1\<rparr>"]
  by (simp add: peer_A_def request_locked_def IntelligentClient_init_def LamportClock_init_def
      increment_def update_def Let_def)

subsection \<open>Release by the holder\<close>

text \<open>
  C7. \<open>release_critical_section\<close> sets \<open>requesting\<close> to False, empties the deferred
  queue, increments the clock and changes nothing else. Called when \<open>requesting\<close> is
  already False (and the queue empty) it therefore changes the clock only, and a second
  release leaves \<open>requesting\<close> and the queue as the first one left them.
\<close>

theorem release_idempotent:
  "snd (release_critical_section self net) =
     self\<lparr>requesting := False, deferred_requests := [],
          clock := snd (increment (clock self))\<rparr> \<and>
   (\<not> requesting self \<and> deferred_requests self = [] \<longrightarrow>
      snd (release_critical_section self net) = self\<lparr>clock := snd (increment (clock self))\<rparr>) \<and>
   requesting (snd (release_critical_section (snd (release_critical_section self net)) net')) =
     requesting (snd (release_critical_section self net)) \<and>
   deferred_requests (snd (release_critical_section (snd (release_critical_section self net)) net')) =
     deferred_requests (snd (release_critical_section self net))"
  by (simp add: release_critical_section_state release_locked_state)

theorem release_idempotent_witness:
  "\<not> requesting (IntelligentClient_init 1 50052 ''localhost:50051'' [(2, ''localhost:50053'')]) \<and>
   deferred_requests (IntelligentClient_init 1 50052 ''localhost:50051'' [(2, ''localhost:50053'')]) = [] \<and>
   snd (release_critical_section
          (IntelligentClient_init 1 50052 ''localhost:50051'' [(2, ''localhost:50053'')])
          (\<lambda>k. RpcError)) =
     (IntelligentClient_init 1 50052 ''localhost:50051'' [(2, ''localhost:50053'')])
       \<lparr>clock := \<lparr>time = 1\<rparr>\<rparr>"
  using release_idempotent [of
      "IntelligentClient_init 1 50052 ''localhost:50051'' [(2, ''localhost:50053'')]"
      "\<lambda>k. RpcError" "\<lambda>k. RpcError"]
  by (simp add: IntelligentClient_init_def LamportClock_init_def increment_def Let_def)

subsection \<open>Counting replies\<close>

text \<open>
  C2. Whatever one outbound access request yields (a granted response, a deferred
  response or an \<open>RpcError\<close>), \<open>send_access_request\<close> adds exactly one to
  \<open>replies_received\<close>. The polling loop returns exactly when \<open>replies_received\<close> has
  reached the required number, and then at its first poll. So \<open>request_critical_section\<close>
  always returns, without a single sleep, after one call per configured peer, with
  \<open>replies_received\<close> equal to the number of peers: a deferred response is never
  followed by a wait for a later grant.
\<close>

theorem replies_counted_once:
  "replies_received (snd (send_access_request self i a rn ts
       (Reply \<lparr>access_granted = True, resp_lamport_timestamp = t\<rparr>))) = replies_received self + 1 \<and>
   replies_received (snd (send_access_request self i a rn ts
       (Reply \<lparr>access_granted = False, resp_lamport_timestamp = t\<rparr>))) = replies_received self + 1 \<and>
   replies_received (snd (send_access_request self i a rn ts RpcError)) = replies_received self + 1 \<and>
   replies_received (snd (send_access_request self i a rn ts r)) = replies_received self + 1 \<and>
   (wait_for_replies self required k \<noteq> None) = (required \<le> replies_received self) \<and>
   (required \<le> replies_received self \<longrightarrow> wait_for_replies self required k = Some k) \<and>
   (let S = send_requests (request_locked self) (other_clients self)
              (request_number self + 1) (time (clock self) + 1) net 0
    in request_critical_section self net = Some (fst S, 0, snd S) \<and>
       length (fst S) = length (other_clients self) \<and>
       replies_received (snd S) = int (length (other_clients self)))"
proof -
  let ?S = "send_requests (request_locked self) (other_clients self)
              (request_number self + 1) (time (clock self) + 1) net 0"
  have fields: "other_clients (request_locked self) = other_clients self"
    "request_number (request_locked self) = request_number self + 1"
    "request_timestamp (request_locked self) = time (clock self) + 1"
    "replies_received (request_locked self) = 0"
    by (simp_all add: request_locked_state)
  have rep: "replies_received (snd ?S) = int (length (other_clients self))"
    by (simp add: send_requests_replies fields)
  have oth: "other_clients (snd ?S) = other_clients self"
    by (simp add: send_requests_others fields)
  have "wait_for_replies (snd ?S) (int (length (other_clients self))) 0 = Some 0"
    using rep by (simp add: wait_for_replies.simps [of "snd ?S"])
  then have rcs: "request_critical_section self net = Some (fst ?S, 0, snd ?S)"
    by (simp add: request_critical_section_def Let_def split_beta fields oth)
  have w: "required \<le> replies_received self \<longrightarrow> wait_for_replies self required k = Some k"
    by (simp add: wait_for_replies.simps [of self required k])
  show ?thesis
    unfolding Let_def
    using rcs rep w wait_for_replies_iff [of self required k]
    by (simp add: send_access_request_replies send_requests_length)
qed

theorem replies_counted_once_witness:
  "request_critical_section
     (IntelligentClient_init 1 50052 ''p'' [(2, ''b''), (3, ''c'')])
     (\<lambda>k. if k = 0 then Reply \<lparr>access_granted = False, resp_lamport_timestamp = 9\<rparr> else RpcError) =
   Some ([(''b'', \<lparr>req_client_id = 1, req_lamport_timestamp = 1, req_request_number = 1\<rparr>),
          (''c'', \<lparr>req_client_id = 1, req_lamport_timestamp = 1, req_request_number = 1\<rparr>)],
         0,
         (IntelligentClient_init 1 50052 ''p'' [(2, ''b''), (3, ''c'')])
           \<lparr>requesting := True, request_number := 1, clock := \<lparr>time = 10\<rparr>,
            request_timestamp := 1, replies_received := 2\<rparr>) \<and>
   (2 :: int) \<le> replies_received
     ((IntelligentClient_init 1 50052 ''p'' [(2, ''b''), (3, ''c'')])\<lparr>replies_received := 2\<rparr>) \<and>
   wait_for_replies
     ((IntelligentClient_init 1 50052 ''p'' [(2, ''b''), (3, ''c'')])\<lparr>replies_received := 2\<rparr>) 2 0 =
     Some 0"
  using replies_counted_once [of "IntelligentClient_init 1 50052 ''p'' [(2, ''b''), (3, ''c'')]"
      2 "''b''" 1 1 9 RpcError 0 0
      "\<lambda>k. if k = 0 then Reply \<lparr>access_granted = False, resp_lamport_timestamp = 9\<rparr> else RpcError"]
    replies_counted_once [of
      "(IntelligentClient_init 1 50052 ''p'' [(2, ''b''), (3, ''c'')])\<lparr>replies_received := 2\<rparr>"
      2 "''b''" 1 1 9 RpcError 2 0 "\<lambda>k. RpcError"]
  by (simp add: IntelligentClient_init_def LamportClock_init_def request_locked_def
      send_access_request_def update_clock_def increment_def update_def Let_def)

text \<open>
  C6. A peer with no other peers sends no access request and returns from
  \<open>request_critical_section\<close> at the first poll: the required number of replies is 0 and
  \<open>replies_received\<close> has just been reset to 0.
\<close>

theorem no_peers_no_wait:
  "other_clients self = [] \<Longrightarrow>
     request_critical_section self net = Some ([], 0, request_locked self) \<and>
     replies_received (request_locked self) = 0 \<and>
     int (length (other_clients (request_locked self))) = 0"
proof -
  assume e: "other_clients self = []"
  have oth: "other_clients (request_locked self) = []"
    and rep: "replies_received (request_locked self) = 0"
    using e by (simp_all add: request_locked_state)
  have "wait_for_replies (request_locked self) 0 0 = Some 0"
    using rep by (simp add: wait_for_replies.simps [of "request_locked self"])
  then show ?thesis
    using oth rep by (simp add: request_critical_section_def Let_def)
qed

theorem no_peers_no_wait_witness:
  "other_clients (IntelligentClient_init 1 50052 ''p'' []) = [] \<and>
   request_critical_section (IntelligentClient_init 1 50052 ''p'' []) (\<lambda>k. RpcError) =
     Some ([], 0,
           (IntelligentClient_init 1 50052 ''p'' [])
             \<lparr>requesting := True, request_number := 1, clock := \<lparr>time = 1\<rparr>,
              request_timestamp := 1, replies_received := 0\<rparr>)"
proof -
  have h: "other_clients (IntelligentClient_init 1 50052 ''p'' []) = []"
    by (simp add: IntelligentClient_init_def)
  show ?thesis
    using h no_peers_no_wait [OF h, of "\<lambda>k. RpcError"]
    by (simp add: IntelligentClient_init_def LamportClock_init_def request_locked_def
        increment_def Let_def)
qed

subsection \<open>The deferred queue\<close>

text \<open>
  C9. In every state that a peer reaches from its initial state, by any interleaving of
  its own request cycle (request, sends, poll, print, release) with inbound requests and
  releases: if the deferred queue is non-empty then \<open>requesting\<close> is True, and every
  entry (client id, timestamp) of the queue is not below the peer's own
  (request\_timestamp, client\_id). Every single step either leaves the queue as it is, or
  is the release (which empties it), or is the locked block of \<open>RequestAccess\<close> taking its
  defer branch: the peer is requesting, the incoming request is not below its own, and
  the pair (client id, timestamp) is appended. After every release the queue is empty.
\<close>

theorem deferred_queue_invariant:
  "(run es (initial cid port srv others) = Some (ph, pend, c) \<longrightarrow>
      (deferred_requests c \<noteq> [] \<longrightarrow> requesting c) \<and>
      (\<forall>(i, ts) \<in> set (deferred_requests c).
          \<not> tuple_lt (ts, i) (request_timestamp c, client_id c)) \<and>
      deferred_ok c) \<and>
   (fire e (ph0, pend0, c0) = Some (ph1, pend1, c1) \<longrightarrow>
      deferred_requests c1 = deferred_requests c0 \<or>
      (e = OwnRelease \<and> deferred_requests c1 = []) \<or>
      (\<exists>k r. e = Handle k \<and> k < length pend0 \<and> pend0 ! k = Req r \<and> requesting c0 \<and>
             \<not> tuple_lt (req_lamport_timestamp r, req_client_id r)
                         (request_timestamp c0, client_id c0) \<and>
             deferred_requests c1 =
               deferred_requests c0 @ [(req_client_id r, req_lamport_timestamp r)])) \<and>
   deferred_requests (snd (release_critical_section self net)) = [] \<and>
   \<not> requesting (snd (release_critical_section self net))"
proof -
  have inv: "deferred_ok c" if "run es (initial cid port srv others) = Some (ph, pend, c)"
  proof -
    from that phase_ok_initial have "phase_ok (ph, pend, c)" by (rule phase_ok_run)
    then show ?thesis by (simp add: phase_ok_def)
  qed
  have unfolded: "(deferred_requests c \<noteq> [] \<longrightarrow> requesting c) \<and>
      (\<forall>(i, ts) \<in> set (deferred_requests c).
          \<not> tuple_lt (ts, i) (request_timestamp c, client_id c))" if "deferred_ok c"
    using that by (simp add: deferred_ok_def list_all_iff)
  show ?thesis
    using inv unfolded fire_queue [of e ph0 pend0 c0 ph1 pend1 c1]
    by (simp add: release_critical_section_state release_locked_state)
qed

theorem deferred_queue_invariant_witness:
  "run [OwnRequest,
        Arrive (Req \<lparr>req_client_id = 2, req_lamport_timestamp = 1, req_request_number = 1\<rparr>),
        Handle 0]
       (initial 1 50052 ''p'' [(2, ''b'')]) =
     Some (Sending 1 1 [(2, ''b'')], [],
           (IntelligentClient_init 1 50052 ''p'' [(2, ''b'')])
             \<lparr>requesting := True, request_number := 1, clock := \<lparr>time = 3\<rparr>,
              request_timestamp := 1, replies_received := 0, deferred_requests := [(2, 1)]\<rparr>) \<and>
   deferred_ok
     ((IntelligentClient_init 1 50052 ''p'' [(2, ''b'')])
        \<lparr>requesting := True, request_number := 1, clock := \<lparr>time = 3\<rparr>,
         request_timestamp := 1, replies_received := 0, deferred_requests := [(2, 1)]\<rparr>) \<and>
   fire OwnRelease (Releasing, [],
       (IntelligentClient_init 1 50052 ''p'' [(2, ''b'')])
         \<lparr>requesting := True, deferred_requests := [(2, 1)]\<rparr>) =
     Some (Idle, [],
       (IntelligentClient_init 1 50052 ''p'' [(2, ''b'')])\<lparr>clock := \<lparr>time = 1\<rparr>\<rparr>)"
proof -
  let ?es = "[OwnRequest,
        Arrive (Req \<lparr>req_client_id = 2, req_lamport_timestamp = 1, req_request_number = 1\<rparr>),
        Handle 0]"
  let ?c = "(IntelligentClient_init 1 50052 ''p'' [(2, ''b'')])
             \<lparr>requesting := True, request_number := 1, clock := \<lparr>time = 3\<rparr>,
              request_timestamp := 1, replies_received := 0, deferred_requests := [(2, 1)]\<rparr>"
  have r: "run ?es (initial 1 50052 ''p'' [(2, ''b'')]) = Some (Sending 1 1 [(2, ''b'')], [], ?c)"
    by (simp add: initial_def IntelligentClient_init_def LamportClock_init_def
        request_locked_def RequestAccess_locked_def should_grant_def update_clock_def
        increment_def update_def Let_def tuple_lt_def)
  have f: "fire OwnRelease (Releasing, [],
       (IntelligentClient_init 1 50052 ''p'' [(2, ''b'')])
         \<lparr>requesting := True, deferred_requests := [(2, 1)]\<rparr>) =
     Some (Idle, [],
       (IntelligentClient_init 1 50052 ''p'' [(2, ''b'')])\<lparr>clock := \<lparr>time = 1\<rparr>\<rparr>)"
    by (simp add: IntelligentClient_init_def LamportClock_init_def release_locked_def
        increment_def Let_def)
  show ?thesis
    using r f
      deferred_queue_invariant [of ?es 1 50052 "''p''" "[(2, ''b'')]" "Sending 1 1 [(2, ''b'')]"
        "[]" ?c OwnRelease Releasing "[]"
        "(IntelligentClient_init 1 50052 ''p'' [(2, ''b'')])
           \<lparr>requesting := True, deferred_requests := [(2, 1)]\<rparr>"
        Idle "[]" "(IntelligentClient_init 1 50052 ''p'' [(2, ''b'')])\<lparr>clock := \<lparr>time = 1\<rparr>\<rparr>"
        ?c "\<lambda>k. RpcError"]
    by simp
qed

subsection \<open>The lock\<close>

text \<open>
  C10, as the code has it. When a thread that does not hold the lock calls
  \<open>RequestAccess\<close>, \<open>ReleaseAccess\<close>, \<open>log\<close>, \<open>start_server\<close>, \<open>send_access_request\<close>,
  \<open>request_critical_section\<close>, \<open>send_release_notification\<close>, \<open>release_critical_section\<close>,
  \<open>send_to_printer\<close>, \<open>print_document\<close> or runs a turn of the loop of
  \<open>run_automatic_requests\<close>, every read or write of \<open>requesting\<close>, \<open>request_timestamp\<close>,
  \<open>replies_received\<close> and the deferred queue it makes happens while it holds the lock.
  The Lamport clock is not covered by the lock: the \<open>clock.update\<close> at the start of
  \<open>RequestAccess\<close> and \<open>ReleaseAccess\<close>, the \<open>clock.update\<close> on a response in
  \<open>send_access_request\<close>, the clock calls of \<open>send_to_printer\<close>, and the clock read of the
  \<open>log\<close> calls made outside a locked block write or read the clock without it. The
  methods, run statement by statement with the lock state, return the results and leave
  the object that the functions of the sections above compute.
\<close>

theorem lock_covers_exclusion_fields:
  "guarded exclusion_fields (accesses_of (RequestAccess_m request) c) \<and>
   guarded exclusion_fields (accesses_of (ReleaseAccess_m release) c) \<and>
   guarded exclusion_fields (accesses_of log_m c) \<and>
   guarded exclusion_fields (accesses_of start_server_m c) \<and>
   guarded exclusion_fields (accesses_of (send_access_request_m i a rn ts r) c) \<and>
   guarded exclusion_fields (accesses_of (request_critical_section_m net fuel) c) \<and>
   guarded exclusion_fields (accesses_of (send_release_notification_m i a ts rr) c) \<and>
   guarded exclusion_fields (accesses_of (release_critical_section_m rnet) c) \<and>
   guarded exclusion_fields (accesses_of (send_to_printer_m printed) c) \<and>
   guarded exclusion_fields (accesses_of (print_document_m net fuel printed rnet) c) \<and>
   guarded exclusion_fields (accesses_of (automatic_request_m net fuel printed rnet) c) \<and>
   (Write, F_clock, False) \<in> set (accesses_of (RequestAccess_m request) c) \<and>
   (Write, F_clock, False) \<in> set (accesses_of (ReleaseAccess_m release) c) \<and>
   (Write, F_clock, False) \<in> set (accesses_of (send_access_request_m i a rn ts (Reply response)) c) \<and>
   (Write, F_clock, False) \<in> set (accesses_of (send_to_printer_m printed) c) \<and>
   (Read, F_clock, False) \<in> set (accesses_of log_m c) \<and>
   (Read, F_clock, False) \<in> set (accesses_of (request_critical_section_m net fuel) c) \<and>
   (Read, F_clock, False) \<in> set (accesses_of (release_critical_section_m rnet) c) \<and>
   result_of (RequestAccess_m request) c = fst (RequestAccess c request) \<and>
   object_after (RequestAccess_m request) c = snd (RequestAccess c request) \<and>
   result_of (ReleaseAccess_m release) c = fst (ReleaseAccess c release) \<and>
   object_after (ReleaseAccess_m release) c = snd (ReleaseAccess c release) \<and>
   result_of (send_access_request_m i a rn ts r) c = fst (send_access_request c i a rn ts r) \<and>
   object_after (send_access_request_m i a rn ts r) c = snd (send_access_request c i a rn ts r) \<and>
   result_of (request_critical_section_m net (Suc fuel)) c =
     map_option (\<lambda>(sent, sleeps, c'). (sent, sleeps)) (request_critical_section c net) \<and>
   Some (object_after (request_critical_section_m net (Suc fuel)) c) =
     map_option (\<lambda>(sent, sleeps, c'). c') (request_critical_section c net) \<and>
   result_of (release_critical_section_m rnet) c = fst (release_critical_section c rnet) \<and>
   object_after (release_critical_section_m rnet) c = snd (release_critical_section c rnet) \<and>
   object_after (send_to_printer_m printed) c = send_to_printer c printed"
proof -
  note u = thread_init_unlocked [of c]
  note init = thread_init_fields [of c] guarded_thread_init [of c]
  note defs = accesses_of_def result_of_def object_after_def
  have a1: "guarded exclusion_fields (accesses_of (RequestAccess_m request) c) \<and>
      (Write, F_clock, False) \<in> set (accesses_of (RequestAccess_m request) c) \<and>
      result_of (RequestAccess_m request) c = fst (RequestAccess c request) \<and>
      object_after (RequestAccess_m request) c = snd (RequestAccess c request)"
    using RequestAccess_m_run [OF u, of request] by (simp add: defs init guarded_Nil)
  have a2: "guarded exclusion_fields (accesses_of (ReleaseAccess_m release) c) \<and>
      (Write, F_clock, False) \<in> set (accesses_of (ReleaseAccess_m release) c) \<and>
      result_of (ReleaseAccess_m release) c = fst (ReleaseAccess c release) \<and>
      object_after (ReleaseAccess_m release) c = snd (ReleaseAccess c release)"
    using ReleaseAccess_m_run [OF u, of release] by (simp add: defs init guarded_Nil)
  have a3: "guarded exclusion_fields (accesses_of log_m c) \<and>
      (Read, F_clock, False) \<in> set (accesses_of log_m c)"
    using log_m_run [OF u] by (simp add: defs init guarded_Nil)
  have a4: "guarded exclusion_fields (accesses_of start_server_m c)"
    using start_server_m_run [OF u] by (simp add: defs init guarded_Nil)
  have a5: "guarded exclusion_fields (accesses_of (send_access_request_m i a rn ts r) c) \<and>
      result_of (send_access_request_m i a rn ts r) c = fst (send_access_request c i a rn ts r) \<and>
      object_after (send_access_request_m i a rn ts r) c = snd (send_access_request c i a rn ts r)"
    using send_access_request_m_run [OF u, of i a rn ts r] by (simp add: defs init guarded_Nil)
  have a5': "(Write, F_clock, False)
      \<in> set (accesses_of (send_access_request_m i a rn ts (Reply response)) c)"
    by (simp add: defs thread_init_def send_access_request_m_def count_reply_m_def unfold_m)
  have a6: "guarded exclusion_fields (accesses_of (request_critical_section_m net fuel) c) \<and>
      (Read, F_clock, False) \<in> set (accesses_of (request_critical_section_m net fuel) c) \<and>
      result_of (request_critical_section_m net (Suc fuel)) c =
        map_option (\<lambda>(sent, sleeps, c'). (sent, sleeps)) (request_critical_section c net) \<and>
      Some (object_after (request_critical_section_m net (Suc fuel)) c) =
        map_option (\<lambda>(sent, sleeps, c'). c') (request_critical_section c net)"
    using request_critical_section_m_run [OF u, of net fuel fuel] by (simp add: defs init guarded_Nil)
  have a7: "guarded exclusion_fields (accesses_of (send_release_notification_m i a ts rr) c)"
    using send_release_notification_m_run [OF u, of i a ts rr] by (simp add: defs init guarded_Nil)
  have a8: "guarded exclusion_fields (accesses_of (release_critical_section_m rnet) c) \<and>
      (Read, F_clock, False) \<in> set (accesses_of (release_critical_section_m rnet) c) \<and>
      result_of (release_critical_section_m rnet) c = fst (release_critical_section c rnet) \<and>
      object_after (release_critical_section_m rnet) c = snd (release_critical_section c rnet)"
    using release_critical_section_m_run [OF u, of rnet] by (simp add: defs init guarded_Nil)
  have a9: "guarded exclusion_fields (accesses_of (send_to_printer_m printed) c) \<and>
      (Write, F_clock, False) \<in> set (accesses_of (send_to_printer_m printed) c) \<and>
      object_after (send_to_printer_m printed) c = send_to_printer c printed"
    using send_to_printer_m_run [OF u, of printed] by (simp add: defs init guarded_Nil)
  have a10: "guarded exclusion_fields (accesses_of (print_document_m net fuel printed rnet) c)"
    using print_document_m_run [OF u, of net fuel printed rnet] by (simp add: defs init guarded_Nil)
  have a11: "guarded exclusion_fields (accesses_of (automatic_request_m net fuel printed rnet) c)"
    using automatic_request_m_run [OF u, of net fuel printed rnet] by (simp add: defs init guarded_Nil)
  from a1 a2 a3 a4 a5 a5' a6 a7 a8 a9 a10 a11 show ?thesis by blast
qed

theorem lock_covers_exclusion_fields_witness:
  "accesses_of (RequestAccess_m
       \<lparr>req_client_id = 2, req_lamport_timestamp = 5, req_request_number = 1\<rparr>) peer_A =
     [(Read, F_clock, False), (Write, F_clock, False), (Read, F_clock, False),
      (Read, F_requesting, True), (Read, F_request_timestamp, True), (Read, F_client_id, True),
      (Read, F_deferred_requests, True), (Write, F_deferred_requests, True),
      (Read, F_client_id, True), (Read, F_clock, True),
      (Read, F_clock, True), (Write, F_clock, True), (Read, F_clock, True)] \<and>
   guarded exclusion_fields (accesses_of (RequestAccess_m
       \<lparr>req_client_id = 2, req_lamport_timestamp = 5, req_request_number = 1\<rparr>) peer_A) \<and>
   result_of (RequestAccess_m
       \<lparr>req_client_id = 2, req_lamport_timestamp = 5, req_request_number = 1\<rparr>) peer_A =
     \<lparr>access_granted = False, resp_lamport_timestamp = 7\<rparr> \<and>
   accesses_of (request_critical_section_m (\<lambda>k. RpcError) (Suc 0))
       (IntelligentClient_init 1 50052 ''p'' [(2, ''b'')]) =
     [(Write, F_requesting, True), (Read, F_request_number, True),
      (Write, F_request_number, True), (Read, F_clock, True), (Write, F_clock, True),
      (Read, F_clock, True), (Write, F_request_timestamp, True),
      (Write, F_replies_received, True), (Read, F_request_number, True),
      (Read, F_request_timestamp, True), (Read, F_client_id, False), (Read, F_clock, False),
      (Read, F_other_clients, False), (Read, F_client_id, False), (Read, F_client_id, False),
      (Read, F_clock, False), (Read, F_replies_received, True),
      (Write, F_replies_received, True), (Read, F_other_clients, False),
      (Read, F_replies_received, True), (Read, F_client_id, False), (Read, F_clock, False)]"
  using lock_covers_exclusion_fields [of
      "\<lparr>req_client_id = 2, req_lamport_timestamp = 5, req_request_number = 1\<rparr>" peer_A
      "\<lparr>rel_client_id = 2, rel_lamport_timestamp = 9, rel_request_number = 1\<rparr>"
      2 "''b''" 1 1 RpcError "\<lambda>k. RpcError" 0 RpcError "\<lambda>k. RpcError" RpcError
      "\<lparr>access_granted = True, resp_lamport_timestamp = 1\<rparr>"]
  by (simp add: accesses_of_def result_of_def thread_init_def RequestAccess_m_def
      request_critical_section_m_def send_access_request_m_def count_reply_m_def unfold_m
      peer_A_def request_locked_def IntelligentClient_init_def LamportClock_init_def
      tuple_lt_def exclusion_fields_def)

text \<open>
  The claim as the specification words it, for every code path and with the clock among
  the guarded fields, fails on the code twice: \<open>RequestAccess\<close> updates the clock before
  it takes the lock, and \<open>show_status\<close> reads \<open>requesting\<close> and the deferred queue without
  taking the lock at all, unlike every other method.
\<close>

theorem lock_discipline_counterexample:
  "\<not> guarded (F_clock # exclusion_fields)
       (accesses_of (RequestAccess_m
          \<lparr>req_client_id = 2, req_lamport_timestamp = 5, req_request_number = 1\<rparr>) peer_A) \<and>
   \<not> guarded exclusion_fields (accesses_of show_status_m peer_A)"
  by (simp add: accesses_of_def thread_init_def RequestAccess_m_def show_status_m_def
      get_time_m_def unfold_m exclusion_fields_def)

end
